theory Spec2Isabelle
  imports Main "HOL-Library.Code_Target_Nat" "HOL-Library.Sublist"
begin

section \<open>Strings\<close>

text \<open>
  A Python \<open>str\<close> is a sequence of Unicode code points; a code point is a natural
  number and a string a list of them. \<open>u\<close> reads an ASCII literal.
\<close>

type_synonym ustring = "nat list"

definition u :: "string \<Rightarrow> ustring" where
  "u s = map of_char s"

text \<open>
  \<open>str.isspace\<close> of one character, which is also the class \<open>\s\<close> of \<open>re\<close> on
  \<open>str\<close> patterns and the set \<open>str.strip()\<close> removes.
\<close>

definition is_space :: "nat \<Rightarrow> bool" where
  "is_space c =
     ((9 \<le> c \<and> c \<le> 13) \<or> (28 \<le> c \<and> c \<le> 32) \<or> c = 133 \<or> c = 160 \<or> c = 5760 \<or>
      (8192 \<le> c \<and> c \<le> 8202) \<or> c = 8232 \<or> c = 8233 \<or> c = 8239 \<or> c = 8287 \<or>
      c = 12288)"

text \<open>
  The decimal digits (category Nd, Unicode 14.0 as in CPython 3.11): the class \<open>\d\<close>
  of \<open>re\<close>, and the digits \<open>int()\<close> reads. Each block is ten consecutive code points
  from its zero.
\<close>

definition nd_zeros :: "nat list" where
  "nd_zeros =
     [0x30, 0x660, 0x6F0, 0x7C0, 0x966, 0x9E6, 0xA66, 0xAE6, 0xB66, 0xBE6,
      0xC66, 0xCE6, 0xD66, 0xDE6, 0xE50, 0xED0, 0xF20, 0x1040, 0x1090, 0x17E0,
      0x1810, 0x1946, 0x19D0, 0x1A80, 0x1A90, 0x1B50, 0x1BB0, 0x1C40, 0x1C50, 0xA620,
      0xA8D0, 0xA900, 0xA9D0, 0xA9F0, 0xAA50, 0xABF0, 0xFF10, 0x104A0, 0x10D30, 0x11066,
      0x110F0, 0x11136, 0x111D0, 0x112F0, 0x11450, 0x114D0, 0x11650, 0x116C0, 0x11730, 0x118E0,
      0x11950, 0x11C50, 0x11D50, 0x11DA0, 0x16A60, 0x16AC0, 0x16B50,
      0x1D7CE, 0x1D7D8, 0x1D7E2, 0x1D7EC, 0x1D7F6,
      0x1E140, 0x1E2F0, 0x1E950, 0x1FBF0]"

definition digit_val :: "nat \<Rightarrow> nat option" where
  "digit_val c =
     (case filter (\<lambda>z. z \<le> c \<and> c < z + 10) nd_zeros of
        [] \<Rightarrow> None
      | z # _ \<Rightarrow> Some (c - z))"

definition is_digit :: "nat \<Rightarrow> bool" where
  "is_digit c = (digit_val c \<noteq> None)"

text \<open>
  \<open>str.lower\<close> (Unicode 14.0 as in CPython 3.11). The lowercase mapping is a table of
  runs \<open>(lo, hi, step, target)\<close>, sorted by \<open>lo\<close>: the code point \<open>lo + k * step\<close>, up to
  \<open>hi\<close>, has the lowercase form \<open>target + k * step\<close>. U+0130 is the one character
  with a lowercase form of two characters, and a code point in no run is its own
  lowercase form.
\<close>

definition lower_runs :: "(nat \<times> nat \<times> nat \<times> nat) list" where
  "lower_runs =
     [(0x41, 0x5A, 1, 0x61), (0xC0, 0xD6, 1, 0xE0), (0xD8, 0xDE, 1, 0xF8),
      (0x100, 0x12E, 2, 0x101), (0x132, 0x136, 2, 0x133), (0x139, 0x147, 2, 0x13A),
      (0x14A, 0x176, 2, 0x14B), (0x178, 0x178, 1, 0xFF), (0x179, 0x17D, 2, 0x17A),
      (0x181, 0x181, 1, 0x253), (0x182, 0x184, 2, 0x183), (0x186, 0x186, 1, 0x254),
      (0x187, 0x187, 1, 0x188), (0x189, 0x18A, 1, 0x256), (0x18B, 0x18B, 1, 0x18C),
      (0x18E, 0x18E, 1, 0x1DD), (0x18F, 0x18F, 1, 0x259), (0x190, 0x190, 1, 0x25B),
      (0x191, 0x191, 1, 0x192), (0x193, 0x193, 1, 0x260), (0x194, 0x194, 1, 0x263),
      (0x196, 0x196, 1, 0x269), (0x197, 0x197, 1, 0x268), (0x198, 0x198, 1, 0x199),
      (0x19C, 0x19C, 1, 0x26F), (0x19D, 0x19D, 1, 0x272), (0x19F, 0x19F, 1, 0x275),
      (0x1A0, 0x1A4, 2, 0x1A1), (0x1A6, 0x1A6, 1, 0x280), (0x1A7, 0x1A7, 1, 0x1A8),
      (0x1A9, 0x1A9, 1, 0x283), (0x1AC, 0x1AC, 1, 0x1AD), (0x1AE, 0x1AE, 1, 0x288),
      (0x1AF, 0x1AF, 1, 0x1B0), (0x1B1, 0x1B2, 1, 0x28A), (0x1B3, 0x1B5, 2, 0x1B4),
      (0x1B7, 0x1B7, 1, 0x292), (0x1B8, 0x1B8, 1, 0x1B9), (0x1BC, 0x1BC, 1, 0x1BD),
      (0x1C4, 0x1C4, 1, 0x1C6), (0x1C5, 0x1C5, 1, 0x1C6), (0x1C7, 0x1C7, 1, 0x1C9),
      (0x1C8, 0x1C8, 1, 0x1C9), (0x1CA, 0x1CA, 1, 0x1CC), (0x1CB, 0x1DB, 2, 0x1CC),
      (0x1DE, 0x1EE, 2, 0x1DF), (0x1F1, 0x1F1, 1, 0x1F3), (0x1F2, 0x1F4, 2, 0x1F3),
      (0x1F6, 0x1F6, 1, 0x195), (0x1F7, 0x1F7, 1, 0x1BF), (0x1F8, 0x21E, 2, 0x1F9),
      (0x220, 0x220, 1, 0x19E), (0x222, 0x232, 2, 0x223), (0x23A, 0x23A, 1, 0x2C65),
      (0x23B, 0x23B, 1, 0x23C), (0x23D, 0x23D, 1, 0x19A), (0x23E, 0x23E, 1, 0x2C66),
      (0x241, 0x241, 1, 0x242), (0x243, 0x243, 1, 0x180), (0x244, 0x244, 1, 0x289),
      (0x245, 0x245, 1, 0x28C), (0x246, 0x24E, 2, 0x247), (0x370, 0x372, 2, 0x371),
      (0x376, 0x376, 1, 0x377), (0x37F, 0x37F, 1, 0x3F3), (0x386, 0x386, 1, 0x3AC),
      (0x388, 0x38A, 1, 0x3AD), (0x38C, 0x38C, 1, 0x3CC), (0x38E, 0x38F, 1, 0x3CD),
      (0x391, 0x3A1, 1, 0x3B1), (0x3A4, 0x3AB, 1, 0x3C4), (0x3CF, 0x3CF, 1, 0x3D7),
      (0x3D8, 0x3EE, 2, 0x3D9), (0x3F4, 0x3F4, 1, 0x3B8), (0x3F7, 0x3F7, 1, 0x3F8),
      (0x3F9, 0x3F9, 1, 0x3F2), (0x3FA, 0x3FA, 1, 0x3FB), (0x3FD, 0x3FF, 1, 0x37B),
      (0x400, 0x40F, 1, 0x450), (0x410, 0x42F, 1, 0x430), (0x460, 0x480, 2, 0x461),
      (0x48A, 0x4BE, 2, 0x48B), (0x4C0, 0x4C0, 1, 0x4CF), (0x4C1, 0x4CD, 2, 0x4C2),
      (0x4D0, 0x52E, 2, 0x4D1), (0x531, 0x556, 1, 0x561), (0x10A0, 0x10C5, 1, 0x2D00),
      (0x10C7, 0x10C7, 1, 0x2D27), (0x10CD, 0x10CD, 1, 0x2D2D), (0x13A0, 0x13EF, 1, 0xAB70),
      (0x13F0, 0x13F5, 1, 0x13F8), (0x1C90, 0x1CBA, 1, 0x10D0), (0x1CBD, 0x1CBF, 1, 0x10FD),
      (0x1E00, 0x1E94, 2, 0x1E01), (0x1E9E, 0x1E9E, 1, 0xDF), (0x1EA0, 0x1EFE, 2, 0x1EA1),
      (0x1F08, 0x1F0F, 1, 0x1F00), (0x1F18, 0x1F1D, 1, 0x1F10), (0x1F28, 0x1F2F, 1, 0x1F20),
      (0x1F38, 0x1F3F, 1, 0x1F30), (0x1F48, 0x1F4D, 1, 0x1F40), (0x1F59, 0x1F5F, 2, 0x1F51),
      (0x1F68, 0x1F6F, 1, 0x1F60), (0x1F88, 0x1F8F, 1, 0x1F80), (0x1F98, 0x1F9F, 1, 0x1F90),
      (0x1FA8, 0x1FAF, 1, 0x1FA0), (0x1FB8, 0x1FB9, 1, 0x1FB0), (0x1FBA, 0x1FBB, 1, 0x1F70),
      (0x1FBC, 0x1FBC, 1, 0x1FB3), (0x1FC8, 0x1FCB, 1, 0x1F72), (0x1FCC, 0x1FCC, 1, 0x1FC3),
      (0x1FD8, 0x1FD9, 1, 0x1FD0), (0x1FDA, 0x1FDB, 1, 0x1F76), (0x1FE8, 0x1FE9, 1, 0x1FE0),
      (0x1FEA, 0x1FEB, 1, 0x1F7A), (0x1FEC, 0x1FEC, 1, 0x1FE5), (0x1FF8, 0x1FF9, 1, 0x1F78),
      (0x1FFA, 0x1FFB, 1, 0x1F7C), (0x1FFC, 0x1FFC, 1, 0x1FF3), (0x2126, 0x2126, 1, 0x3C9),
      (0x212A, 0x212A, 1, 0x6B), (0x212B, 0x212B, 1, 0xE5), (0x2132, 0x2132, 1, 0x214E),
      (0x2160, 0x216F, 1, 0x2170), (0x2183, 0x2183, 1, 0x2184), (0x24B6, 0x24CF, 1, 0x24D0),
      (0x2C00, 0x2C2F, 1, 0x2C30), (0x2C60, 0x2C60, 1, 0x2C61), (0x2C62, 0x2C62, 1, 0x26B),
      (0x2C63, 0x2C63, 1, 0x1D7D), (0x2C64, 0x2C64, 1, 0x27D), (0x2C67, 0x2C6B, 2, 0x2C68),
      (0x2C6D, 0x2C6D, 1, 0x251), (0x2C6E, 0x2C6E, 1, 0x271), (0x2C6F, 0x2C6F, 1, 0x250),
      (0x2C70, 0x2C70, 1, 0x252), (0x2C72, 0x2C72, 1, 0x2C73), (0x2C75, 0x2C75, 1, 0x2C76),
      (0x2C7E, 0x2C7F, 1, 0x23F), (0x2C80, 0x2CE2, 2, 0x2C81), (0x2CEB, 0x2CED, 2, 0x2CEC),
      (0x2CF2, 0x2CF2, 1, 0x2CF3), (0xA640, 0xA66C, 2, 0xA641), (0xA680, 0xA69A, 2, 0xA681),
      (0xA722, 0xA72E, 2, 0xA723), (0xA732, 0xA76E, 2, 0xA733), (0xA779, 0xA77B, 2, 0xA77A),
      (0xA77D, 0xA77D, 1, 0x1D79), (0xA77E, 0xA786, 2, 0xA77F), (0xA78B, 0xA78B, 1, 0xA78C),
      (0xA78D, 0xA78D, 1, 0x265), (0xA790, 0xA792, 2, 0xA791), (0xA796, 0xA7A8, 2, 0xA797),
      (0xA7AA, 0xA7AA, 1, 0x266), (0xA7AB, 0xA7AB, 1, 0x25C), (0xA7AC, 0xA7AC, 1, 0x261),
      (0xA7AD, 0xA7AD, 1, 0x26C), (0xA7AE, 0xA7AE, 1, 0x26A), (0xA7B0, 0xA7B0, 1, 0x29E),
      (0xA7B1, 0xA7B1, 1, 0x287), (0xA7B2, 0xA7B2, 1, 0x29D), (0xA7B3, 0xA7B3, 1, 0xAB53),
      (0xA7B4, 0xA7C2, 2, 0xA7B5), (0xA7C4, 0xA7C4, 1, 0xA794), (0xA7C5, 0xA7C5, 1, 0x282),
      (0xA7C6, 0xA7C6, 1, 0x1D8E), (0xA7C7, 0xA7C9, 2, 0xA7C8), (0xA7D0, 0xA7D0, 1, 0xA7D1),
      (0xA7D6, 0xA7D8, 2, 0xA7D7), (0xA7F5, 0xA7F5, 1, 0xA7F6), (0xFF21, 0xFF3A, 1, 0xFF41),
      (0x10400, 0x10427, 1, 0x10428), (0x104B0, 0x104D3, 1, 0x104D8), (0x10570, 0x1057A, 1, 0x10597),
      (0x1057C, 0x1058A, 1, 0x105A3), (0x1058C, 0x10592, 1, 0x105B3), (0x10594, 0x10595, 1, 0x105BB),
      (0x10C80, 0x10CB2, 1, 0x10CC0), (0x118A0, 0x118BF, 1, 0x118C0), (0x16E40, 0x16E5F, 1, 0x16E60),
      (0x1E900, 0x1E921, 1, 0x1E922)]"

fun run_lookup :: "nat \<Rightarrow> (nat \<times> nat \<times> nat \<times> nat) list \<Rightarrow> nat option" where
  "run_lookup c [] = None"
| "run_lookup c ((lo, hi, step, target) # rs) =
     (if c < lo then None
      else if c \<le> hi \<and> (c - lo) mod step = 0 then Some (target + (c - lo))
      else run_lookup c rs)"

definition lower_cp :: "nat \<Rightarrow> ustring" where
  "lower_cp c =
     (if c = 0x130 then [0x69, 0x307]
      else (case run_lookup c lower_runs of None \<Rightarrow> [c] | Some l \<Rightarrow> [l]))"

text \<open>
  The capital sigma U+03A3 is lowered by its context: to the final sigma U+03C2 when a
  cased character stands before it and none after it, case-ignorable characters
  skipped on both sides, and to U+03C3 otherwise. The two properties are tables of
  ranges, sorted.
\<close>

definition cased_ranges :: "(nat \<times> nat) list" where
  "cased_ranges =
     [(0x41, 0x5A), (0x61, 0x7A), (0xAA, 0xAA), (0xB5, 0xB5), (0xBA, 0xBA),
      (0xC0, 0xD6), (0xD8, 0xF6), (0xF8, 0x1BA), (0x1BC, 0x1BF), (0x1C4, 0x293),
      (0x295, 0x2B8), (0x2C0, 0x2C1), (0x2E0, 0x2E4), (0x345, 0x345), (0x370, 0x373),
      (0x376, 0x377), (0x37A, 0x37D), (0x37F, 0x37F), (0x386, 0x386), (0x388, 0x38A),
      (0x38C, 0x38C), (0x38E, 0x3A1), (0x3A3, 0x3F5), (0x3F7, 0x481), (0x48A, 0x52F),
      (0x531, 0x556), (0x560, 0x588), (0x10A0, 0x10C5), (0x10C7, 0x10C7), (0x10CD, 0x10CD),
      (0x10D0, 0x10FA), (0x10FD, 0x10FF), (0x13A0, 0x13F5), (0x13F8, 0x13FD), (0x1C80, 0x1C88),
      (0x1C90, 0x1CBA), (0x1CBD, 0x1CBF), (0x1D00, 0x1DBF), (0x1E00, 0x1F15), (0x1F18, 0x1F1D),
      (0x1F20, 0x1F45), (0x1F48, 0x1F4D), (0x1F50, 0x1F57), (0x1F59, 0x1F59), (0x1F5B, 0x1F5B),
      (0x1F5D, 0x1F5D), (0x1F5F, 0x1F7D), (0x1F80, 0x1FB4), (0x1FB6, 0x1FBC), (0x1FBE, 0x1FBE),
      (0x1FC2, 0x1FC4), (0x1FC6, 0x1FCC), (0x1FD0, 0x1FD3), (0x1FD6, 0x1FDB), (0x1FE0, 0x1FEC),
      (0x1FF2, 0x1FF4), (0x1FF6, 0x1FFC), (0x2071, 0x2071), (0x207F, 0x207F), (0x2090, 0x209C),
      (0x2102, 0x2102), (0x2107, 0x2107), (0x210A, 0x2113), (0x2115, 0x2115), (0x2119, 0x211D),
      (0x2124, 0x2124), (0x2126, 0x2126), (0x2128, 0x2128), (0x212A, 0x212D), (0x212F, 0x2134),
      (0x2139, 0x2139), (0x213C, 0x213F), (0x2145, 0x2149), (0x214E, 0x214E), (0x2160, 0x217F),
      (0x2183, 0x2184), (0x24B6, 0x24E9), (0x2C00, 0x2CE4), (0x2CEB, 0x2CEE), (0x2CF2, 0x2CF3),
      (0x2D00, 0x2D25), (0x2D27, 0x2D27), (0x2D2D, 0x2D2D), (0xA640, 0xA66D), (0xA680, 0xA69D),
      (0xA722, 0xA787), (0xA78B, 0xA78E), (0xA790, 0xA7CA), (0xA7D0, 0xA7D1), (0xA7D3, 0xA7D3),
      (0xA7D5, 0xA7D9), (0xA7F5, 0xA7F6), (0xA7F8, 0xA7FA), (0xAB30, 0xAB5A), (0xAB5C, 0xAB68),
      (0xAB70, 0xABBF), (0xFB00, 0xFB06), (0xFB13, 0xFB17), (0xFF21, 0xFF3A), (0xFF41, 0xFF5A),
      (0x10400, 0x1044F), (0x104B0, 0x104D3), (0x104D8, 0x104FB), (0x10570, 0x1057A), (0x1057C, 0x1058A),
      (0x1058C, 0x10592), (0x10594, 0x10595), (0x10597, 0x105A1), (0x105A3, 0x105B1), (0x105B3, 0x105B9),
      (0x105BB, 0x105BC), (0x10780, 0x10780), (0x10783, 0x10785), (0x10787, 0x107B0), (0x107B2, 0x107BA),
      (0x10C80, 0x10CB2), (0x10CC0, 0x10CF2), (0x118A0, 0x118DF), (0x16E40, 0x16E7F), (0x1D400, 0x1D454),
      (0x1D456, 0x1D49C), (0x1D49E, 0x1D49F), (0x1D4A2, 0x1D4A2), (0x1D4A5, 0x1D4A6), (0x1D4A9, 0x1D4AC),
      (0x1D4AE, 0x1D4B9), (0x1D4BB, 0x1D4BB), (0x1D4BD, 0x1D4C3), (0x1D4C5, 0x1D505), (0x1D507, 0x1D50A),
      (0x1D50D, 0x1D514), (0x1D516, 0x1D51C), (0x1D51E, 0x1D539), (0x1D53B, 0x1D53E), (0x1D540, 0x1D544),
      (0x1D546, 0x1D546), (0x1D54A, 0x1D550), (0x1D552, 0x1D6A5), (0x1D6A8, 0x1D6C0), (0x1D6C2, 0x1D6DA),
      (0x1D6DC, 0x1D6FA), (0x1D6FC, 0x1D714), (0x1D716, 0x1D734), (0x1D736, 0x1D74E), (0x1D750, 0x1D76E),
      (0x1D770, 0x1D788), (0x1D78A, 0x1D7A8), (0x1D7AA, 0x1D7C2), (0x1D7C4, 0x1D7CB), (0x1DF00, 0x1DF09),
      (0x1DF0B, 0x1DF1E), (0x1E900, 0x1E943), (0x1F130, 0x1F149), (0x1F150, 0x1F169), (0x1F170, 0x1F189)]"

definition case_ignorable_ranges :: "(nat \<times> nat) list" where
  "case_ignorable_ranges =
     [(0x27, 0x27), (0x2E, 0x2E), (0x3A, 0x3A), (0x5E, 0x5E), (0x60, 0x60),
      (0xA8, 0xA8), (0xAD, 0xAD), (0xAF, 0xAF), (0xB4, 0xB4), (0xB7, 0xB8),
      (0x2B0, 0x36F), (0x374, 0x375), (0x37A, 0x37A), (0x384, 0x385), (0x387, 0x387),
      (0x483, 0x489), (0x559, 0x559), (0x55F, 0x55F), (0x591, 0x5BD), (0x5BF, 0x5BF),
      (0x5C1, 0x5C2), (0x5C4, 0x5C5), (0x5C7, 0x5C7), (0x5F4, 0x5F4), (0x600, 0x605),
      (0x610, 0x61A), (0x61C, 0x61C), (0x640, 0x640), (0x64B, 0x65F), (0x670, 0x670),
      (0x6D6, 0x6DD), (0x6DF, 0x6E8), (0x6EA, 0x6ED), (0x70F, 0x70F), (0x711, 0x711),
      (0x730, 0x74A), (0x7A6, 0x7B0), (0x7EB, 0x7F5), (0x7FA, 0x7FA), (0x7FD, 0x7FD),
      (0x816, 0x82D), (0x859, 0x85B), (0x888, 0x888), (0x890, 0x891), (0x898, 0x89F),
      (0x8C9, 0x902), (0x93A, 0x93A), (0x93C, 0x93C), (0x941, 0x948), (0x94D, 0x94D),
      (0x951, 0x957), (0x962, 0x963), (0x971, 0x971), (0x981, 0x981), (0x9BC, 0x9BC),
      (0x9C1, 0x9C4), (0x9CD, 0x9CD), (0x9E2, 0x9E3), (0x9FE, 0x9FE), (0xA01, 0xA02),
      (0xA3C, 0xA3C), (0xA41, 0xA42), (0xA47, 0xA48), (0xA4B, 0xA4D), (0xA51, 0xA51),
      (0xA70, 0xA71), (0xA75, 0xA75), (0xA81, 0xA82), (0xABC, 0xABC), (0xAC1, 0xAC5),
      (0xAC7, 0xAC8), (0xACD, 0xACD), (0xAE2, 0xAE3), (0xAFA, 0xAFF), (0xB01, 0xB01),
      (0xB3C, 0xB3C), (0xB3F, 0xB3F), (0xB41, 0xB44), (0xB4D, 0xB4D), (0xB55, 0xB56),
      (0xB62, 0xB63), (0xB82, 0xB82), (0xBC0, 0xBC0), (0xBCD, 0xBCD), (0xC00, 0xC00),
      (0xC04, 0xC04), (0xC3C, 0xC3C), (0xC3E, 0xC40), (0xC46, 0xC48), (0xC4A, 0xC4D),
      (0xC55, 0xC56), (0xC62, 0xC63), (0xC81, 0xC81), (0xCBC, 0xCBC), (0xCBF, 0xCBF),
      (0xCC6, 0xCC6), (0xCCC, 0xCCD), (0xCE2, 0xCE3), (0xD00, 0xD01), (0xD3B, 0xD3C),
      (0xD41, 0xD44), (0xD4D, 0xD4D), (0xD62, 0xD63), (0xD81, 0xD81), (0xDCA, 0xDCA),
      (0xDD2, 0xDD4), (0xDD6, 0xDD6), (0xE31, 0xE31), (0xE34, 0xE3A), (0xE46, 0xE4E),
      (0xEB1, 0xEB1), (0xEB4, 0xEBC), (0xEC6, 0xEC6), (0xEC8, 0xECD), (0xF18, 0xF19),
      (0xF35, 0xF35), (0xF37, 0xF37), (0xF39, 0xF39), (0xF71, 0xF7E), (0xF80, 0xF84),
      (0xF86, 0xF87), (0xF8D, 0xF97), (0xF99, 0xFBC), (0xFC6, 0xFC6), (0x102D, 0x1030),
      (0x1032, 0x1037), (0x1039, 0x103A), (0x103D, 0x103E), (0x1058, 0x1059), (0x105E, 0x1060),
      (0x1071, 0x1074), (0x1082, 0x1082), (0x1085, 0x1086), (0x108D, 0x108D), (0x109D, 0x109D),
      (0x10FC, 0x10FC), (0x135D, 0x135F), (0x1712, 0x1714), (0x1732, 0x1733), (0x1752, 0x1753),
      (0x1772, 0x1773), (0x17B4, 0x17B5), (0x17B7, 0x17BD), (0x17C6, 0x17C6), (0x17C9, 0x17D3),
      (0x17D7, 0x17D7), (0x17DD, 0x17DD), (0x180B, 0x180F), (0x1843, 0x1843), (0x1885, 0x1886),
      (0x18A9, 0x18A9), (0x1920, 0x1922), (0x1927, 0x1928), (0x1932, 0x1932), (0x1939, 0x193B),
      (0x1A17, 0x1A18), (0x1A1B, 0x1A1B), (0x1A56, 0x1A56), (0x1A58, 0x1A5E), (0x1A60, 0x1A60),
      (0x1A62, 0x1A62), (0x1A65, 0x1A6C), (0x1A73, 0x1A7C), (0x1A7F, 0x1A7F), (0x1AA7, 0x1AA7),
      (0x1AB0, 0x1ACE), (0x1B00, 0x1B03), (0x1B34, 0x1B34), (0x1B36, 0x1B3A), (0x1B3C, 0x1B3C),
      (0x1B42, 0x1B42), (0x1B6B, 0x1B73), (0x1B80, 0x1B81), (0x1BA2, 0x1BA5), (0x1BA8, 0x1BA9),
      (0x1BAB, 0x1BAD), (0x1BE6, 0x1BE6), (0x1BE8, 0x1BE9), (0x1BED, 0x1BED), (0x1BEF, 0x1BF1),
      (0x1C2C, 0x1C33), (0x1C36, 0x1C37), (0x1C78, 0x1C7D), (0x1CD0, 0x1CD2), (0x1CD4, 0x1CE0),
      (0x1CE2, 0x1CE8), (0x1CED, 0x1CED), (0x1CF4, 0x1CF4), (0x1CF8, 0x1CF9), (0x1D2C, 0x1D6A),
      (0x1D78, 0x1D78), (0x1D9B, 0x1DFF), (0x1FBD, 0x1FBD), (0x1FBF, 0x1FC1), (0x1FCD, 0x1FCF),
      (0x1FDD, 0x1FDF), (0x1FED, 0x1FEF), (0x1FFD, 0x1FFE), (0x200B, 0x200F), (0x2018, 0x2019),
      (0x2024, 0x2024), (0x2027, 0x2027), (0x202A, 0x202E), (0x2060, 0x2064), (0x2066, 0x206F),
      (0x2071, 0x2071), (0x207F, 0x207F), (0x2090, 0x209C), (0x20D0, 0x20F0), (0x2C7C, 0x2C7D),
      (0x2CEF, 0x2CF1), (0x2D6F, 0x2D6F), (0x2D7F, 0x2D7F), (0x2DE0, 0x2DFF), (0x2E2F, 0x2E2F),
      (0x3005, 0x3005), (0x302A, 0x302D), (0x3031, 0x3035), (0x303B, 0x303B), (0x3099, 0x309E),
      (0x30FC, 0x30FE), (0xA015, 0xA015), (0xA4F8, 0xA4FD), (0xA60C, 0xA60C), (0xA66F, 0xA672),
      (0xA674, 0xA67D), (0xA67F, 0xA67F), (0xA69C, 0xA69F), (0xA6F0, 0xA6F1), (0xA700, 0xA721),
      (0xA770, 0xA770), (0xA788, 0xA78A), (0xA7F2, 0xA7F4), (0xA7F8, 0xA7F9), (0xA802, 0xA802),
      (0xA806, 0xA806), (0xA80B, 0xA80B), (0xA825, 0xA826), (0xA82C, 0xA82C), (0xA8C4, 0xA8C5),
      (0xA8E0, 0xA8F1), (0xA8FF, 0xA8FF), (0xA926, 0xA92D), (0xA947, 0xA951), (0xA980, 0xA982),
      (0xA9B3, 0xA9B3), (0xA9B6, 0xA9B9), (0xA9BC, 0xA9BD), (0xA9CF, 0xA9CF), (0xA9E5, 0xA9E6),
      (0xAA29, 0xAA2E), (0xAA31, 0xAA32), (0xAA35, 0xAA36), (0xAA43, 0xAA43), (0xAA4C, 0xAA4C),
      (0xAA70, 0xAA70), (0xAA7C, 0xAA7C), (0xAAB0, 0xAAB0), (0xAAB2, 0xAAB4), (0xAAB7, 0xAAB8),
      (0xAABE, 0xAABF), (0xAAC1, 0xAAC1), (0xAADD, 0xAADD), (0xAAEC, 0xAAED), (0xAAF3, 0xAAF4),
      (0xAAF6, 0xAAF6), (0xAB5B, 0xAB5F), (0xAB69, 0xAB6B), (0xABE5, 0xABE5), (0xABE8, 0xABE8),
      (0xABED, 0xABED), (0xFB1E, 0xFB1E), (0xFBB2, 0xFBC2), (0xFE00, 0xFE0F), (0xFE13, 0xFE13),
      (0xFE20, 0xFE2F), (0xFE52, 0xFE52), (0xFE55, 0xFE55), (0xFEFF, 0xFEFF), (0xFF07, 0xFF07),
      (0xFF0E, 0xFF0E), (0xFF1A, 0xFF1A), (0xFF3E, 0xFF3E), (0xFF40, 0xFF40), (0xFF70, 0xFF70),
      (0xFF9E, 0xFF9F), (0xFFE3, 0xFFE3), (0xFFF9, 0xFFFB), (0x101FD, 0x101FD), (0x102E0, 0x102E0),
      (0x10376, 0x1037A), (0x10780, 0x10785), (0x10787, 0x107B0), (0x107B2, 0x107BA), (0x10A01, 0x10A03),
      (0x10A05, 0x10A06), (0x10A0C, 0x10A0F), (0x10A38, 0x10A3A), (0x10A3F, 0x10A3F), (0x10AE5, 0x10AE6),
      (0x10D24, 0x10D27), (0x10EAB, 0x10EAC), (0x10F46, 0x10F50), (0x10F82, 0x10F85), (0x11001, 0x11001),
      (0x11038, 0x11046), (0x11070, 0x11070), (0x11073, 0x11074), (0x1107F, 0x11081), (0x110B3, 0x110B6),
      (0x110B9, 0x110BA), (0x110BD, 0x110BD), (0x110C2, 0x110C2), (0x110CD, 0x110CD), (0x11100, 0x11102),
      (0x11127, 0x1112B), (0x1112D, 0x11134), (0x11173, 0x11173), (0x11180, 0x11181), (0x111B6, 0x111BE),
      (0x111C9, 0x111CC), (0x111CF, 0x111CF), (0x1122F, 0x11231), (0x11234, 0x11234), (0x11236, 0x11237),
      (0x1123E, 0x1123E), (0x112DF, 0x112DF), (0x112E3, 0x112EA), (0x11300, 0x11301), (0x1133B, 0x1133C),
      (0x11340, 0x11340), (0x11366, 0x1136C), (0x11370, 0x11374), (0x11438, 0x1143F), (0x11442, 0x11444),
      (0x11446, 0x11446), (0x1145E, 0x1145E), (0x114B3, 0x114B8), (0x114BA, 0x114BA), (0x114BF, 0x114C0),
      (0x114C2, 0x114C3), (0x115B2, 0x115B5), (0x115BC, 0x115BD), (0x115BF, 0x115C0), (0x115DC, 0x115DD),
      (0x11633, 0x1163A), (0x1163D, 0x1163D), (0x1163F, 0x11640), (0x116AB, 0x116AB), (0x116AD, 0x116AD),
      (0x116B0, 0x116B5), (0x116B7, 0x116B7), (0x1171D, 0x1171F), (0x11722, 0x11725), (0x11727, 0x1172B),
      (0x1182F, 0x11837), (0x11839, 0x1183A), (0x1193B, 0x1193C), (0x1193E, 0x1193E), (0x11943, 0x11943),
      (0x119D4, 0x119D7), (0x119DA, 0x119DB), (0x119E0, 0x119E0), (0x11A01, 0x11A0A), (0x11A33, 0x11A38),
      (0x11A3B, 0x11A3E), (0x11A47, 0x11A47), (0x11A51, 0x11A56), (0x11A59, 0x11A5B), (0x11A8A, 0x11A96),
      (0x11A98, 0x11A99), (0x11C30, 0x11C36), (0x11C38, 0x11C3D), (0x11C3F, 0x11C3F), (0x11C92, 0x11CA7),
      (0x11CAA, 0x11CB0), (0x11CB2, 0x11CB3), (0x11CB5, 0x11CB6), (0x11D31, 0x11D36), (0x11D3A, 0x11D3A),
      (0x11D3C, 0x11D3D), (0x11D3F, 0x11D45), (0x11D47, 0x11D47), (0x11D90, 0x11D91), (0x11D95, 0x11D95),
      (0x11D97, 0x11D97), (0x11EF3, 0x11EF4), (0x13430, 0x13438), (0x16AF0, 0x16AF4), (0x16B30, 0x16B36),
      (0x16B40, 0x16B43), (0x16F4F, 0x16F4F), (0x16F8F, 0x16F9F), (0x16FE0, 0x16FE1), (0x16FE3, 0x16FE4),
      (0x1AFF0, 0x1AFF3), (0x1AFF5, 0x1AFFB), (0x1AFFD, 0x1AFFE), (0x1BC9D, 0x1BC9E), (0x1BCA0, 0x1BCA3),
      (0x1CF00, 0x1CF2D), (0x1CF30, 0x1CF46), (0x1D167, 0x1D169), (0x1D173, 0x1D182), (0x1D185, 0x1D18B),
      (0x1D1AA, 0x1D1AD), (0x1D242, 0x1D244), (0x1DA00, 0x1DA36), (0x1DA3B, 0x1DA6C), (0x1DA75, 0x1DA75),
      (0x1DA84, 0x1DA84), (0x1DA9B, 0x1DA9F), (0x1DAA1, 0x1DAAF), (0x1E000, 0x1E006), (0x1E008, 0x1E018),
      (0x1E01B, 0x1E021), (0x1E023, 0x1E024), (0x1E026, 0x1E02A), (0x1E130, 0x1E13D), (0x1E2AE, 0x1E2AE),
      (0x1E2EC, 0x1E2EF), (0x1E8D0, 0x1E8D6), (0x1E944, 0x1E94B), (0x1F3FB, 0x1F3FF), (0xE0001, 0xE0001),
      (0xE0020, 0xE007F), (0xE0100, 0xE01EF)]"

fun in_ranges :: "nat \<Rightarrow> (nat \<times> nat) list \<Rightarrow> bool" where
  "in_ranges c [] = False"
| "in_ranges c ((lo, hi) # rs) =
     (if c < lo then False else if c \<le> hi then True else in_ranges c rs)"

definition is_cased :: "nat \<Rightarrow> bool" where
  "is_cased c = in_ranges c cased_ranges"

definition is_case_ignorable :: "nat \<Rightarrow> bool" where
  "is_case_ignorable c = in_ranges c case_ignorable_ranges"

text \<open>
  \<open>prev\<close> is the text before the sigma, the nearest character first; \<open>rest\<close> is
  the text behind it.
\<close>

definition final_sigma :: "ustring \<Rightarrow> ustring \<Rightarrow> bool" where
  "final_sigma prev rest =
     (case dropWhile is_case_ignorable prev of
        [] \<Rightarrow> False
      | b # _ \<Rightarrow>
          is_cased b \<and>
          (case dropWhile is_case_ignorable rest of
             [] \<Rightarrow> True
           | a # _ \<Rightarrow> \<not> is_cased a))"

fun lower_from :: "ustring \<Rightarrow> ustring \<Rightarrow> ustring" where
  "lower_from prev [] = []"
| "lower_from prev (c # cs) =
     (if c = 0x3A3 then [if final_sigma prev cs then 0x3C2 else 0x3C3] else lower_cp c)
     @ lower_from (c # prev) cs"

definition str_lower :: "ustring \<Rightarrow> ustring" where
  "str_lower s = lower_from [] s"

definition str_strip :: "ustring \<Rightarrow> ustring" where
  "str_strip s = rev (dropWhile is_space (rev (dropWhile is_space s)))"

text \<open>\<open>s.strip(chars)\<close> with one character given.\<close>

definition strip_chr :: "nat \<Rightarrow> ustring \<Rightarrow> ustring" where
  "strip_chr a s = rev (dropWhile (\<lambda>c. c = a) (rev (dropWhile (\<lambda>c. c = a) s)))"

text \<open>\<open>s.split(sep)\<close> for a separator of one character: never an empty list.\<close>

fun str_split :: "nat \<Rightarrow> ustring \<Rightarrow> ustring list" where
  "str_split sep [] = [[]]"
| "str_split sep (c # cs) =
     (if c = sep then [] # str_split sep cs
      else (case str_split sep cs of
              [] \<Rightarrow> [[c]]
            | w # ws \<Rightarrow> (c # w) # ws))"

fun str_join :: "ustring \<Rightarrow> ustring list \<Rightarrow> ustring" where
  "str_join sep [] = []"
| "str_join sep [x] = x"
| "str_join sep (x # y # ys) = x @ sep @ str_join sep (y # ys)"

fun startswith :: "ustring \<Rightarrow> ustring \<Rightarrow> bool" where
  "startswith s [] = True"
| "startswith [] (p # ps) = False"
| "startswith (c # cs) (p # ps) = (c = p \<and> startswith cs ps)"

text \<open>\<open>s.replace(old, new)\<close> for \<open>old\<close> of one character.\<close>

definition str_replace :: "nat \<Rightarrow> ustring \<Rightarrow> ustring \<Rightarrow> ustring" where
  "str_replace old new s = concat (map (\<lambda>c. if c = old then new else [c]) s)"

text \<open>\<open>html.escape(s)\<close>, with \<open>quote=True\<close>: the ampersand first.\<close>

definition html_escape :: "ustring \<Rightarrow> ustring" where
  "html_escape s =
     str_replace 39 (u ''&#x27;'')
       (str_replace 34 (u ''&quot;'')
         (str_replace 62 (u ''&gt;'')
           (str_replace 60 (u ''&lt;'')
             (str_replace 38 (u ''&amp;'') s))))"

section \<open>Regular expressions\<close>

text \<open>
  The \<open>re\<close> module as a backtracking matcher. A match state is the position, the
  text from there, and the groups captured so far. \<open>ms r\<close> lists the states after
  every way to match \<open>r\<close>, in the order \<open>re\<close> tries them, so the head of the list is
  the match \<open>re\<close> returns. The patterns: the empty one, a character, a class of
  characters, \<open>^\<close>, \<open>$\<close>, sequence, alternative, the greedy and the lazy star, and
  a numbered capturing group. A star stops at an iteration that consumes nothing.
\<close>

datatype re =
    Eps
  | Chr nat
  | Cls "nat \<Rightarrow> bool"
  | Bol
  | Eol
  | Seq re re
  | Alt re re
  | Star re
  | StarL re
  | Grp nat re

type_synonym caps = "(nat \<times> ustring) list"
type_synonym mstate = "nat \<times> ustring \<times> caps"

fun ms :: "re \<Rightarrow> nat \<Rightarrow> ustring \<Rightarrow> caps \<Rightarrow> mstate list" where
  "ms Eps p s c = [(p, s, c)]"
| "ms (Chr a) p s c =
     (case s of [] \<Rightarrow> [] | x # xs \<Rightarrow> if x = a then [(Suc p, xs, c)] else [])"
| "ms (Cls f) p s c =
     (case s of [] \<Rightarrow> [] | x # xs \<Rightarrow> if f x then [(Suc p, xs, c)] else [])"
| "ms Bol p s c = (if p = 0 then [(p, s, c)] else [])"
| "ms Eol p s c = (if s = [] \<or> s = [10] then [(p, s, c)] else [])"
| "ms (Seq r1 r2) p s c =
     concat (map (\<lambda>m. ms r2 (fst m) (fst (snd m)) (snd (snd m))) (ms r1 p s c))"
| "ms (Alt r1 r2) p s c = ms r1 p s c @ ms r2 p s c"
| "ms (Star r) p s c =
     concat (map (\<lambda>m. if length (fst (snd m)) < length s
                        then ms (Star r) (fst m) (fst (snd m)) (snd (snd m)) else [])
                 (ms r p s c)) @ [(p, s, c)]"
| "ms (StarL r) p s c =
     (p, s, c) #
     concat (map (\<lambda>m. if length (fst (snd m)) < length s
                        then ms (StarL r) (fst m) (fst (snd m)) (snd (snd m)) else [])
                 (ms r p s c))"
| "ms (Grp n r) p s c =
     map (\<lambda>m. (fst m, fst (snd m), (n, take (fst m - p) s) # snd (snd m))) (ms r p s c)"

text \<open>The greedy and the lazy \<open>+\<close>, a literal text, and \<open>.\<close> with and without DOTALL.\<close>

definition Plus :: "re \<Rightarrow> re" where
  "Plus r = Seq r (Star r)"

definition PlusL :: "re \<Rightarrow> re" where
  "PlusL r = Seq r (StarL r)"

fun lit :: "ustring \<Rightarrow> re" where
  "lit [] = Eps"
| "lit (a # as) = Seq (Chr a) (lit as)"

definition Dot :: re where
  "Dot = Cls (\<lambda>c. c \<noteq> 10)"

definition AnyChr :: re where
  "AnyChr = Cls (\<lambda>c. True)"

text \<open>\<open>re.match(r, s)\<close>: the first match at the start of \<open>s\<close>.\<close>

definition re_match :: "re \<Rightarrow> ustring \<Rightarrow> mstate option" where
  "re_match r s = (case ms r 0 s [] of [] \<Rightarrow> None | m # _ \<Rightarrow> Some m)"

text \<open>\<open>m.group(n)\<close>: the text the group captured last, empty when it took no part.\<close>

definition group :: "caps \<Rightarrow> nat \<Rightarrow> ustring" where
  "group c n = (case map_of c n of None \<Rightarrow> [] | Some g \<Rightarrow> g)"

text \<open>A replacement template: literal text and group references \<open>\1\<close>, \<open>\2\<close>.\<close>

datatype tpl = Lit ustring | Ref nat

fun expand :: "tpl list \<Rightarrow> caps \<Rightarrow> ustring" where
  "expand [] c = []"
| "expand (Lit t # ts) c = t @ expand ts c"
| "expand (Ref n # ts) c = group c n @ expand ts c"

text \<open>
  \<open>re.sub(r, repl, s)\<close>: from the left, each match found at the earliest position is
  replaced and the scan goes on behind it. No pattern of this program matches the
  empty text; for one that did, the replacement is written and one character copied.
\<close>

function sub_from :: "re \<Rightarrow> tpl list \<Rightarrow> nat \<Rightarrow> ustring \<Rightarrow> ustring" where
  "sub_from r t p s =
     (case ms r p s [] of
        [] \<Rightarrow> (case s of [] \<Rightarrow> [] | x # xs \<Rightarrow> x # sub_from r t (Suc p) xs)
      | m # _ \<Rightarrow>
          if length (fst (snd m)) < length s
          then expand t (snd (snd m)) @ sub_from r t (fst m) (fst (snd m))
          else (case s of
                  [] \<Rightarrow> expand t (snd (snd m))
                | x # xs \<Rightarrow> expand t (snd (snd m)) @ x # sub_from r t (Suc p) xs))"
  by pat_completeness auto
termination
  by (relation "measure (\<lambda>(r, t, p, s). length s)") auto

definition re_sub :: "re \<Rightarrow> tpl list \<Rightarrow> ustring \<Rightarrow> ustring" where
  "re_sub r t s = sub_from r t 0 s"

section \<open>The inline formatter\<close>

definition re_bold_italic :: re where
  "re_bold_italic = Seq (lit (u ''***'')) (Seq (Grp 1 (PlusL Dot)) (lit (u ''***'')))"

definition re_bold :: re where
  "re_bold = Seq (lit (u ''**'')) (Seq (Grp 1 (PlusL Dot)) (lit (u ''**'')))"

definition re_italic :: re where
  "re_italic = Seq (lit (u ''*'')) (Seq (Grp 1 (PlusL Dot)) (lit (u ''*'')))"

definition re_code :: re where
  "re_code = Seq (Chr 96) (Seq (Grp 1 (PlusL Dot)) (Chr 96))"

definition re_link :: re where
  "re_link =
     Seq (lit (u ''['')) (Seq (Grp 1 (PlusL Dot)) (Seq (lit (u '']('')) 
       (Seq (Grp 2 (PlusL Dot)) (lit (u '')'')))))"

definition inline_format :: "ustring \<Rightarrow> ustring" where
  "inline_format s0 =
     (let s1 = re_sub re_bold_italic [Lit (u ''<strong><em>''), Ref 1, Lit (u ''</em></strong>'')] s0;
          s2 = re_sub re_bold [Lit (u ''<strong>''), Ref 1, Lit (u ''</strong>'')] s1;
          s3 = re_sub re_italic [Lit (u ''<em>''), Ref 1, Lit (u ''</em>'')] s2;
          s4 = re_sub re_code [Lit (u ''<code>''), Ref 1, Lit (u ''</code>'')] s3;
          s5 = re_sub re_link [Lit (u ''<a href=\"''), Ref 2, Lit (u ''\">''), Ref 1, Lit (u ''</a>'')] s4
      in s5)"

section \<open>The block converter\<close>

text \<open>
  The locals of \<open>md_to_html\<close> that the loop over the lines updates: the fragments
  emitted so far, one flag for each block mode, and the lines of the open blockquote.
\<close>

record md_state =
  result :: "ustring list"
  in_list :: bool
  in_ol :: bool
  in_code :: bool
  in_blockquote :: bool
  bq_lines :: "ustring list"

definition md_init :: md_state where
  "md_init = \<lparr>result = [], in_list = False, in_ol = False, in_code = False,
              in_blockquote = False, bq_lines = []\<rparr>"

definition emit :: "ustring \<Rightarrow> md_state \<Rightarrow> md_state" where
  "emit f st = st\<lparr>result := result st @ [f]\<rparr>"

definition flush_blockquote :: "md_state \<Rightarrow> md_state" where
  "flush_blockquote st =
     (if in_blockquote st
      then (emit (u ''<blockquote><p>'' @ inline_format (str_join (u '' '') (bq_lines st))
                  @ u ''</p></blockquote>'') st)
             \<lparr>in_blockquote := False, bq_lines := []\<rparr>
      else st)"

text \<open>The greedy \<open>r{lo,hi}\<close>.\<close>

fun rep :: "re \<Rightarrow> nat \<Rightarrow> nat \<Rightarrow> re" where
  "rep r 0 0 = Eps"
| "rep r 0 (Suc n) = Alt (Seq r (rep r 0 n)) Eps"
| "rep r (Suc m) n = Seq r (rep r m (n - 1))"

definition re_heading :: re where
  "re_heading =
     Seq Bol (Seq (Grp 1 (rep (Chr 35) 1 3)) (Seq (Plus (Cls is_space)) (Grp 2 (Plus Dot))))"

definition re_ul :: re where
  "re_ul = Seq Bol (Seq (Cls (\<lambda>c. c = 45 \<or> c = 42)) (Plus (Cls is_space)))"

definition re_ol :: re where
  "re_ol = Seq Bol (Seq (Plus (Cls is_digit)) (Seq (Chr 46) (Plus (Cls is_space))))"

text \<open>The decimal text of a number, as an f-string writes it.\<close>

function str_nat :: "nat \<Rightarrow> ustring" where
  "str_nat n = (if n < 10 then [48 + n] else str_nat (n div 10) @ [48 + n mod 10])"
  by pat_completeness auto
termination
  by (relation "measure id") auto

text \<open>
  The body of the loop, from the heading rule on: the line is neither a fence nor
  inside one, nor a blockquote line, and the open blockquote has been flushed.
\<close>

definition md_block :: "md_state \<Rightarrow> ustring \<Rightarrow> md_state" where
  "md_block st stripped =
     (case re_match re_heading stripped of
        Some m \<Rightarrow>
          (let level0 = length (group (snd (snd m)) 1) + 1;
               level = (if level0 > 4 then 4 else level0)
           in emit (u ''<h'' @ str_nat level @ u ''>'' @ inline_format (group (snd (snd m)) 2)
                    @ u ''</h'' @ str_nat level @ u ''>'') st)
      | None \<Rightarrow>
          if (stripped = u ''---'' \<or> stripped = u ''***'' \<or> stripped = u ''___'')
             \<and> length stripped \<ge> 3
          then emit (u ''<hr>'') st
          else if re_match re_ul stripped \<noteq> None
          then (let st1 = (if \<not> in_list st then (emit (u ''<ul>'') st)\<lparr>in_list := True\<rparr> else st)
                in emit (u ''<li>'' @ inline_format (re_sub re_ul [] stripped) @ u ''</li>'') st1)
          else
            (let st1 = (if in_list st then (emit (u ''</ul>'') st)\<lparr>in_list := False\<rparr> else st)
             in if re_match re_ol stripped \<noteq> None
                then (let st2 = (if \<not> in_ol st1 then (emit (u ''<ol>'') st1)\<lparr>in_ol := True\<rparr>
                                 else st1)
                      in emit (u ''<li>'' @ inline_format (re_sub re_ol [] stripped) @ u ''</li>'') st2)
                else
                  (let st2 = (if in_ol st1 then (emit (u ''</ol>'') st1)\<lparr>in_ol := False\<rparr>
                              else st1)
                   in if stripped = [] then st2
                      else emit (u ''<p>'' @ inline_format stripped @ u ''</p>'') st2)))"

text \<open>One turn of the loop over the lines.\<close>

definition md_line :: "md_state \<Rightarrow> ustring \<Rightarrow> md_state" where
  "md_line st line =
     (let stripped = str_strip line
      in if startswith stripped (u ''```'')
         then (if in_code st then (emit (u ''</code></pre>'') st)\<lparr>in_code := False\<rparr>
               else (emit (u ''<pre><code>'') st)\<lparr>in_code := True\<rparr>)
         else if in_code st then emit (html_escape line) st
         else if startswith stripped (u ''> '')
         then (let st1 = (if \<not> in_blockquote st
                          then st\<lparr>in_blockquote := True, bq_lines := []\<rparr> else st)
               in st1\<lparr>bq_lines := bq_lines st1 @ [drop 2 stripped]\<rparr>)
         else md_block (flush_blockquote st) stripped)"

text \<open>After the loop: close what is still open.\<close>

definition md_finish :: "md_state \<Rightarrow> md_state" where
  "md_finish st =
     (let st1 = flush_blockquote st;
          st2 = (if in_list st1 then emit (u ''</ul>'') st1 else st1);
          st3 = (if in_ol st2 then emit (u ''</ol>'') st2 else st2);
          st4 = (if in_code st3 then emit (u ''</code></pre>'') st3 else st3)
      in st4)"

text \<open>The state after the loop, the fragments, and the text returned.\<close>

definition md_run :: "ustring \<Rightarrow> md_state" where
  "md_run text = foldl md_line md_init (str_split 10 text)"

definition md_fragments :: "ustring \<Rightarrow> ustring list" where
  "md_fragments text = result (md_finish (md_run text))"

definition md_to_html :: "ustring \<Rightarrow> ustring" where
  "md_to_html text = str_join (10 # replicate 10 32) (md_fragments text)"

section \<open>The frontmatter splitter\<close>

text \<open>The pattern of \<open>parse_frontmatter\<close>, compiled with DOTALL.\<close>

definition re_frontmatter :: re where
  "re_frontmatter =
     Seq Bol (Seq (lit (u ''---'')) (Seq (Star (Cls is_space)) (Seq (Chr 10)
       (Seq (Grp 1 (StarL AnyChr)) (Seq (Chr 10) (Seq (lit (u ''---''))
         (Seq (Star (Cls is_space)) (Seq (Chr 10) (Seq (Grp 2 (Star AnyChr)) Eol)))))))))"

text \<open>One line of the block: \<open>key: value\<close>, split at the first colon.\<close>

definition meta_line :: "(ustring \<rightharpoonup> ustring) \<Rightarrow> ustring \<Rightarrow> (ustring \<rightharpoonup> ustring)" where
  "meta_line meta line =
     (if 58 \<in> set line
      then (let key = takeWhile (\<lambda>c. c \<noteq> 58) line;
                val = drop 1 (dropWhile (\<lambda>c. c \<noteq> 58) line)
            in meta(str_lower (str_strip key) \<mapsto> str_strip val))
      else meta)"

definition parse_frontmatter :: "ustring \<Rightarrow> (ustring \<rightharpoonup> ustring) \<times> ustring" where
  "parse_frontmatter content =
     (case re_match re_frontmatter content of
        None \<Rightarrow> (Map.empty, content)
      | Some m \<Rightarrow>
          (foldl meta_line Map.empty (str_split 10 (group (snd (snd m)) 1)),
           str_strip (group (snd (snd m)) 2)))"

section \<open>The slug generator\<close>

definition slug_keep :: "nat \<Rightarrow> bool" where
  "slug_keep c = ((97 \<le> c \<and> c \<le> 122) \<or> (48 \<le> c \<and> c \<le> 57) \<or> is_space c \<or> c = 45)"

definition slugify :: "ustring \<Rightarrow> ustring" where
  "slugify title =
     (let slug1 = str_lower title;
          slug2 = re_sub (Cls (\<lambda>c. \<not> slug_keep c)) [] slug1;
          slug3 = re_sub (Plus (Cls is_space)) [Lit (u ''-'')] slug2;
          slug4 = strip_chr 45 (re_sub (Plus (Chr 45)) [Lit (u ''-'')] slug3)
      in slug4)"

section \<open>The date normalizer\<close>

subsection \<open>\<open>datetime.strptime\<close>\<close>

datatype py_error = ValueError | KeyError | IndexError

record datetime =
  year :: nat
  month :: nat
  day :: nat
  hour :: nat
  minute :: nat
  second :: nat
  microsecond :: nat

definition datetime_min :: datetime where
  "datetime_min = \<lparr>year = 1, month = 1, day = 1, hour = 0, minute = 0, second = 0,
                    microsecond = 0\<rparr>"

text \<open>The order of two datetimes: field by field, the year first.\<close>

fun lex_less :: "nat list \<Rightarrow> nat list \<Rightarrow> bool" where
  "lex_less (a # as) (b # bs) = (a < b \<or> (a = b \<and> lex_less as bs))"
| "lex_less as bs = False"

definition dt_fields :: "datetime \<Rightarrow> nat list" where
  "dt_fields d = [year d, month d, day d, hour d, minute d, second d, microsecond d]"

definition dt_less :: "datetime \<Rightarrow> datetime \<Rightarrow> bool" where
  "dt_less a b = lex_less (dt_fields a) (dt_fields b)"

text \<open>
  A character of a pattern compiled with IGNORECASE: the text's character matches when
  both fold to the same one. Besides the two cases of an ASCII letter, U+0130 and
  U+0131 match \<open>i\<close>, U+017F matches \<open>s\<close> and U+212A matches \<open>k\<close>.
\<close>

definition fold_case :: "nat \<Rightarrow> nat" where
  "fold_case c =
     (if 65 \<le> c \<and> c \<le> 90 then c + 32
      else if c = 0x130 \<or> c = 0x131 then 105
      else if c = 0x17F then 115
      else if c = 0x212A then 107
      else c)"

definition ichr :: "nat \<Rightarrow> re" where
  "ichr a = Cls (\<lambda>c. fold_case c = fold_case a)"

fun ilit :: "ustring \<Rightarrow> re" where
  "ilit [] = Eps"
| "ilit (a # as) = Seq (ichr a) (ilit as)"

text \<open>The month names of the C locale, as \<open>LocaleTime\<close> keeps them.\<close>

definition f_month :: "ustring list" where
  "f_month = map u [''january'', ''february'', ''march'', ''april'', ''may'', ''june'', ''july'',
                    ''august'', ''september'', ''october'', ''november'', ''december'']"

definition a_month :: "ustring list" where
  "a_month = map u [''jan'', ''feb'', ''mar'', ''apr'', ''may'', ''jun'', ''jul'', ''aug'', ''sep'',
                    ''oct'', ''nov'', ''dec'']"

fun alts :: "re list \<Rightarrow> re" where
  "alts [] = Cls (\<lambda>c. False)"
| "alts [r] = r"
| "alts (r # rs) = Alt r (alts rs)"

text \<open>
  \<open>TimeRE.__seqToRE\<close>: the names as alternatives, the longest first, names of one
  length in their order.
\<close>

definition seq_to_re :: "ustring list \<Rightarrow> re" where
  "seq_to_re names = alts (map ilit (rev (sort_key length (rev names))))"

definition cls_range :: "nat \<Rightarrow> nat \<Rightarrow> re" where
  "cls_range lo hi = Cls (\<lambda>c. lo \<le> c \<and> c \<le> hi)"

text \<open>
  The patterns of the directives the formats of the program use, each a group named by
  its letter (here: numbered by the letter's code).
\<close>

definition directive :: "nat \<Rightarrow> re option" where
  "directive a =
     (if a = 66 then Some (Grp 66 (seq_to_re f_month))
      else if a = 98 then Some (Grp 98 (seq_to_re a_month))
      else if a = 100 then
        Some (Grp 100 (alts [Seq (Chr 51) (cls_range 48 49),
                             Seq (cls_range 49 50) (Cls is_digit),
                             Seq (Chr 48) (cls_range 49 57),
                             cls_range 49 57,
                             Seq (Chr 32) (cls_range 49 57)]))
      else if a = 109 then
        Some (Grp 109 (alts [Seq (Chr 49) (cls_range 48 50),
                             Seq (Chr 48) (cls_range 49 57),
                             cls_range 49 57]))
      else if a = 89 then
        Some (Grp 89 (Seq (Cls is_digit) (Seq (Cls is_digit) (Seq (Cls is_digit) (Cls is_digit)))))
      else None)"

text \<open>
  \<open>TimeRE.pattern\<close>: a run of whitespace in the format is \<open>\s+\<close>, a directive its
  pattern, any other character itself. An unknown directive is a KeyError and a
  \<open>%\<close> at the end an IndexError.
\<close>

function time_re :: "ustring \<Rightarrow> py_error + re" where
  "time_re [] = Inr Eps"
| "time_re (a # as) =
     (if a = 37 then
        (case as of
           [] \<Rightarrow> Inl IndexError
         | b # bs \<Rightarrow>
             (case directive b of
                None \<Rightarrow> Inl KeyError
              | Some r \<Rightarrow> (case time_re bs of Inl e \<Rightarrow> Inl e | Inr r' \<Rightarrow> Inr (Seq r r'))))
      else if is_space a then
        (case time_re (dropWhile is_space as) of
           Inl e \<Rightarrow> Inl e
         | Inr r' \<Rightarrow> Inr (Seq (Plus (Cls is_space)) r'))
      else (case time_re as of Inl e \<Rightarrow> Inl e | Inr r' \<Rightarrow> Inr (Seq (ichr a) r')))"
  by pat_completeness auto
termination
  by (relation "measure length") (auto simp: less_Suc_eq_le length_dropWhile_le)

text \<open>\<open>int(s)\<close> on what the patterns capture: digits, after blanks.\<close>

definition py_int :: "ustring \<Rightarrow> nat option" where
  "py_int s =
     (let t = str_strip s
      in if t = [] then None
         else foldl (\<lambda>acc c. case acc of
                                None \<Rightarrow> None
                              | Some n \<Rightarrow> map_option (\<lambda>v. 10 * n + v) (digit_val c))
                    (Some 0) t)"

text \<open>\<open>xs.index(x)\<close>.\<close>

fun index_of :: "'a \<Rightarrow> 'a list \<Rightarrow> nat option" where
  "index_of x [] = None"
| "index_of x (y # ys) = (if x = y then Some 0 else map_option Suc (index_of x ys))"

text \<open>
  The loop of \<open>_strptime\<close> over the groups found: year, month and day, from the
  defaults \<open>None\<close>, 1 and 1. A failing \<open>int\<close> or \<open>index\<close> is a ValueError.
\<close>

definition set_field ::
  "(nat option \<times> nat \<times> nat) option \<Rightarrow> nat \<times> ustring \<Rightarrow> (nat option \<times> nat \<times> nat) option" where
  "set_field acc g =
     (case acc of
        None \<Rightarrow> None
      | Some (y, mo, d) \<Rightarrow>
          if fst g = 89 then map_option (\<lambda>v. (Some v, mo, d)) (py_int (snd g))
          else if fst g = 109 then map_option (\<lambda>v. (y, v, d)) (py_int (snd g))
          else if fst g = 66
          then map_option (\<lambda>i. (y, Suc i, d)) (index_of (str_lower (snd g)) f_month)
          else if fst g = 98
          then map_option (\<lambda>i. (y, Suc i, d)) (index_of (str_lower (snd g)) a_month)
          else if fst g = 100 then map_option (\<lambda>v. (y, mo, v)) (py_int (snd g))
          else acc)"

definition is_leap :: "nat \<Rightarrow> bool" where
  "is_leap y = (if y mod 100 = 0 then y mod 400 = 0 else y mod 4 = 0)"

definition days_in_month :: "nat \<Rightarrow> nat \<Rightarrow> nat" where
  "days_in_month y m =
     (if m = 2 then (if is_leap y then 29 else 28)
      else if m = 4 \<or> m = 6 \<or> m = 9 \<or> m = 11 then 30 else 31)"

text \<open>What the constructor of \<open>date\<close> accepts.\<close>

definition valid_date :: "nat \<Rightarrow> nat \<Rightarrow> nat \<Rightarrow> bool" where
  "valid_date y m d =
     (1 \<le> y \<and> y \<le> 9999 \<and> 1 \<le> m \<and> m \<le> 12 \<and> 1 \<le> d \<and> d \<le> days_in_month y m)"

definition strptime :: "ustring \<Rightarrow> ustring \<Rightarrow> py_error + datetime" where
  "strptime data_string format =
     (case time_re format of
        Inl e \<Rightarrow> Inl ValueError
      | Inr r \<Rightarrow>
          (case re_match r data_string of
             None \<Rightarrow> Inl ValueError
           | Some m \<Rightarrow>
               if fst (snd m) \<noteq> [] then Inl ValueError
               else
                 (case foldl set_field (Some (None, 1, 1)) (rev (snd (snd m))) of
                    None \<Rightarrow> Inl ValueError
                  | Some (yo, mo, d) \<Rightarrow>
                      (let y = (case yo of
                                  Some y \<Rightarrow> y
                                | None \<Rightarrow> if mo = 2 \<and> d = 29 then 1904 else 1900)
                       in if valid_date y mo d
                          then Inr \<lparr>year = y, month = mo, day = d, hour = 0, minute = 0,
                                    second = 0, microsecond = 0\<rparr>
                          else Inl ValueError))))"

subsection \<open>\<open>parse_date\<close>\<close>

definition formats :: "ustring list" where
  "formats = [u ''%B %d, %Y'', u ''%Y-%m-%d'', u ''%b %d, %Y'', u ''%d %B %Y'']"

text \<open>
  The loop over the formats: the first that parses returns, a ValueError goes on to
  the next, any other error leaves the function.
\<close>

fun try_formats :: "ustring list \<Rightarrow> ustring \<Rightarrow> py_error + datetime" where
  "try_formats [] date_str = Inr datetime_min"
| "try_formats (fmt # fmts) date_str =
     (case strptime (str_strip date_str) fmt of
        Inr d \<Rightarrow> Inr d
      | Inl e \<Rightarrow> if e = ValueError then try_formats fmts date_str else Inl e)"

definition parse_date :: "ustring \<Rightarrow> py_error + datetime" where
  "parse_date date_str = try_formats formats date_str"

section \<open>Notions used to state the properties\<close>

text \<open>The number of places where the text \<open>t\<close> occurs in a text.\<close>

fun count_sub :: "ustring \<Rightarrow> ustring \<Rightarrow> nat" where
  "count_sub t [] = (if t = [] then 1 else 0)"
| "count_sub t (c # cs) = (if startswith (c # cs) t then 1 else 0) + count_sub t cs"

text \<open>
  What \<open>re.sub\<close> does with a pattern \<open>x+\<close> for a class \<open>x\<close> of characters and a
  literal replacement: each maximal run of characters of the class becomes the
  replacement.
\<close>

function squeeze :: "(nat \<Rightarrow> bool) \<Rightarrow> ustring \<Rightarrow> ustring \<Rightarrow> ustring" where
  "squeeze f t [] = []"
| "squeeze f t (x # xs) =
     (if f x then t @ squeeze f t (dropWhile f xs) else x # squeeze f t xs)"
  by pat_completeness auto
termination
  by (relation "measure (\<lambda>(f, t, s). length s)") (auto simp: less_Suc_eq_le length_dropWhile_le)

text \<open>The ASCII letters and digits.\<close>

definition ascii_alnum :: "nat \<Rightarrow> bool" where
  "ascii_alnum c = ((65 \<le> c \<and> c \<le> 90) \<or> (97 \<le> c \<and> c \<le> 122) \<or> (48 \<le> c \<and> c \<le> 57))"

text \<open>Removing the characters of a class at the end of a text.\<close>

definition rstrip :: "(nat \<Rightarrow> bool) \<Rightarrow> ustring \<Rightarrow> ustring" where
  "rstrip P s = rev (dropWhile P (rev s))"

text \<open>A pattern that matches exactly one character, those of a class.\<close>

definition one_chr :: "re \<Rightarrow> (nat \<Rightarrow> bool) \<Rightarrow> bool" where
  "one_chr r f =
     (\<forall>p s c. ms r p s c
        = (case s of [] \<Rightarrow> [] | x # xs \<Rightarrow> if f x then [(Suc p, xs, c)] else []))"

text \<open>The characters of a slug: lowercase ASCII letters, ASCII digits, the hyphen.\<close>

definition slug_chr :: "nat \<Rightarrow> bool" where
  "slug_chr c = ((97 \<le> c \<and> c \<le> 122) \<or> (48 \<le> c \<and> c \<le> 57) \<or> c = 45)"

text \<open>
  From the words of the specification: the text begins with a delimiter line (three
  hyphens, then only blanks up to the end of the line), a block of lines follows, and
  then another delimiter line. \<open>delimiter_line\<close> gives the text behind a delimiter
  line at the start of a text; \<open>closing_delimiter\<close> says that somewhere in a text a
  line ends and a delimiter line follows.
\<close>

definition delimiter_line :: "ustring \<Rightarrow> ustring option" where
  "delimiter_line s =
     (if startswith s (u ''---'')
      then (case dropWhile (\<lambda>c. is_space c \<and> c \<noteq> 10) (drop 3 s) of
              [] \<Rightarrow> None
            | c # r \<Rightarrow> if c = 10 then Some r else None)
      else None)"

fun closing_delimiter :: "ustring \<Rightarrow> bool" where
  "closing_delimiter [] = False"
| "closing_delimiter (c # cs) = ((c = 10 \<and> delimiter_line cs \<noteq> None) \<or> closing_delimiter cs)"

definition has_delimiter_pair :: "ustring \<Rightarrow> bool" where
  "has_delimiter_pair s =
     (case delimiter_line s of None \<Rightarrow> False | Some r \<Rightarrow> closing_delimiter r)"

section \<open>Facts about the matcher\<close>

declare sub_from.simps [simp del]
lemmas ms_Star = ms.simps(8)
lemmas ms_StarL = ms.simps(9)
declare ms.simps(8) [simp del] ms.simps(9) [simp del]

lemma ms_lit:
  "ms (lit t) p s c = (if startswith s t then [(p + length t, drop (length t) s, c)] else [])"
proof (induction t arbitrary: p s)
  case Nil
  then show ?case by simp
next
  case (Cons a as)
  show ?case
  proof (cases s)
    case Nil
    then show ?thesis by simp
  next
    case (Cons x xs)
    then show ?thesis by (simp add: Cons.IH)
  qed
qed

lemma startswith_append: "startswith s t \<Longrightarrow> s = t @ drop (length t) s"
proof (induction s t rule: startswith.induct)
  case (1 s)
  show ?case by simp
next
  case (2 p ps)
  then show ?case by simp
next
  case (3 c cs p ps)
  then show ?case by simp
qed

lemma startswith_prefix: "startswith (t @ r) t"
  by (induction t) auto

lemma seq_nonempty:
  "ms (Seq r1 r2) p s c \<noteq> [] \<Longrightarrow>
   \<exists>m \<in> set (ms r1 p s c). ms r2 (fst m) (fst (snd m)) (snd (snd m)) \<noteq> []"
  by auto

lemma star_cls_shape:
  "m \<in> set (ms (Star (Cls f)) p s c) \<Longrightarrow> \<exists>w. s = w @ fst (snd m) \<and> list_all f w"
proof (induction s arbitrary: p)
  case Nil
  then show ?case by (subst (asm) ms_Star) simp
next
  case (Cons x xs)
  show ?case
  proof (cases "f x")
    case True
    have "m \<in> set (ms (Star (Cls f)) (Suc p) xs c) \<or> m = (p, x # xs, c)"
      using Cons.prems True by (subst (asm) ms_Star) auto
    then show ?thesis
    proof
      assume "m \<in> set (ms (Star (Cls f)) (Suc p) xs c)"
      then obtain w where "xs = w @ fst (snd m)" "list_all f w"
        using Cons.IH by blast
      then have "x # xs = (x # w) @ fst (snd m) \<and> list_all f (x # w)"
        using True by simp
      then show ?thesis by blast
    next
      assume "m = (p, x # xs, c)"
      then have "x # xs = [] @ fst (snd m) \<and> list_all f []" by simp
      then show ?thesis by blast
    qed
  next
    case False
    then have "m = (p, x # xs, c)"
      using Cons.prems by (subst (asm) ms_Star) simp
    then have "x # xs = [] @ fst (snd m) \<and> list_all f []" by simp
    then show ?thesis by blast
  qed
qed

lemma ms_suffix: "m \<in> set (ms r p s c) \<Longrightarrow> suffix (fst (snd m)) s"
proof (induction r p s c arbitrary: m rule: ms.induct)
  case (1 p s c)
  then show ?case by simp
next
  case (2 a p s c)
  then show ?case by (auto split: list.splits if_splits simp: suffix_Cons)
next
  case (3 f p s c)
  then show ?case by (auto split: list.splits if_splits simp: suffix_Cons)
next
  case (4 p s c)
  then show ?case by (auto split: if_splits)
next
  case (5 p s c)
  then show ?case by (auto split: if_splits)
next
  case (6 r1 r2 p s c)
  from 6(3) obtain m1 where m1: "m1 \<in> set (ms r1 p s c)"
    and m: "m \<in> set (ms r2 (fst m1) (fst (snd m1)) (snd (snd m1)))"
    by auto
  have "suffix (fst (snd m1)) s" using 6(1) m1 by blast
  moreover have "suffix (fst (snd m)) (fst (snd m1))" using 6(2) m1 m by blast
  ultimately show ?case using suffix_order.trans by blast
next
  case (7 r1 r2 p s c)
  from 7(3) have "m \<in> set (ms r1 p s c) \<or> m \<in> set (ms r2 p s c)" by simp
  then show ?case using 7(1) 7(2) by blast
next
  case (8 r p s c)
  from 8(3) have "m = (p, s, c) \<or>
     (\<exists>m1 \<in> set (ms r p s c). length (fst (snd m1)) < length s
        \<and> m \<in> set (ms (Star r) (fst m1) (fst (snd m1)) (snd (snd m1))))"
    by (subst (asm) ms_Star) (auto split: if_splits)
  then show ?case
  proof
    assume "m = (p, s, c)"
    then show ?thesis by simp
  next
    assume "\<exists>m1 \<in> set (ms r p s c). length (fst (snd m1)) < length s
        \<and> m \<in> set (ms (Star r) (fst m1) (fst (snd m1)) (snd (snd m1)))"
    then obtain m1 where m1: "m1 \<in> set (ms r p s c)" "length (fst (snd m1)) < length s"
      and m: "m \<in> set (ms (Star r) (fst m1) (fst (snd m1)) (snd (snd m1)))"
      by blast
    have "suffix (fst (snd m1)) s" using 8(1) m1 by blast
    moreover have "suffix (fst (snd m)) (fst (snd m1))" using 8(2) m1 m by blast
    ultimately show ?thesis using suffix_order.trans by blast
  qed
next
  case (9 r p s c)
  from 9(3) have "m = (p, s, c) \<or>
     (\<exists>m1 \<in> set (ms r p s c). length (fst (snd m1)) < length s
        \<and> m \<in> set (ms (StarL r) (fst m1) (fst (snd m1)) (snd (snd m1))))"
    by (subst (asm) ms_StarL) (auto split: if_splits)
  then show ?case
  proof
    assume "m = (p, s, c)"
    then show ?thesis by simp
  next
    assume "\<exists>m1 \<in> set (ms r p s c). length (fst (snd m1)) < length s
        \<and> m \<in> set (ms (StarL r) (fst m1) (fst (snd m1)) (snd (snd m1)))"
    then obtain m1 where m1: "m1 \<in> set (ms r p s c)" "length (fst (snd m1)) < length s"
      and m: "m \<in> set (ms (StarL r) (fst m1) (fst (snd m1)) (snd (snd m1)))"
      by blast
    have "suffix (fst (snd m1)) s" using 9(1) m1 by blast
    moreover have "suffix (fst (snd m)) (fst (snd m1))" using 9(2) m1 m by blast
    ultimately show ?thesis using suffix_order.trans by blast
  qed
next
  case (10 n r p s c)
  then show ?case by auto
qed


section \<open>The inline formatter on the sample line\<close>

text \<open>
  C6: on the line with one bold, one italic, one code and one link span, the five passes,
  in their order and each matching lazily, give one \<open>strong\<close>, one \<open>em\<close>, one \<open>code\<close>
  and one \<open>a\<close> element around the right texts, and nothing else changes. The passes
  run in the order bold and italic, bold, italic, code, links, each on the result of
  the one before; so three asterisks on both sides give the two nested elements, and
  two italic spans on one line stay two elements, as lazy matching has it.
\<close>

theorem inline_format_sample:
  "inline_format (u ''**bold** and *italic* and `code` and [text](http://x)'')
     = u ''<strong>bold</strong> and <em>italic</em> and <code>code</code> and <a href=\"http://x\">text</a>''
   \<and> count_sub (u ''<strong>'')
         (inline_format (u ''**bold** and *italic* and `code` and [text](http://x)'')) = 1
   \<and> count_sub (u ''<em>'')
         (inline_format (u ''**bold** and *italic* and `code` and [text](http://x)'')) = 1
   \<and> count_sub (u ''<code>'')
         (inline_format (u ''**bold** and *italic* and `code` and [text](http://x)'')) = 1
   \<and> count_sub (u ''<a href=\"http://x\">'')
         (inline_format (u ''**bold** and *italic* and `code` and [text](http://x)'')) = 1
   \<and> count_sub (u ''<a '')
         (inline_format (u ''**bold** and *italic* and `code` and [text](http://x)'')) = 1
   \<and> inline_format (u ''*a* and *b*'') = u ''<em>a</em> and <em>b</em>''
   \<and> inline_format (u ''***x***'') = u ''<strong><em>x</em></strong>''
   \<and> (\<forall>s. inline_format s =
          re_sub re_link [Lit (u ''<a href=\"''), Ref 2, Lit (u ''\">''), Ref 1, Lit (u ''</a>'')]
            (re_sub re_code [Lit (u ''<code>''), Ref 1, Lit (u ''</code>'')]
              (re_sub re_italic [Lit (u ''<em>''), Ref 1, Lit (u ''</em>'')]
                (re_sub re_bold [Lit (u ''<strong>''), Ref 1, Lit (u ''</strong>'')]
                  (re_sub re_bold_italic
                     [Lit (u ''<strong><em>''), Ref 1, Lit (u ''</em></strong>'')] s)))))"
proof -
  have a: "inline_format (u ''**bold** and *italic* and `code` and [text](http://x)'')
     = u ''<strong>bold</strong> and <em>italic</em> and <code>code</code> and <a href=\"http://x\">text</a>''"
    by code_simp
  have b: "count_sub (u ''<strong>'')
         (u ''<strong>bold</strong> and <em>italic</em> and <code>code</code> and <a href=\"http://x\">text</a>'') = 1
   \<and> count_sub (u ''<em>'')
         (u ''<strong>bold</strong> and <em>italic</em> and <code>code</code> and <a href=\"http://x\">text</a>'') = 1
   \<and> count_sub (u ''<code>'')
         (u ''<strong>bold</strong> and <em>italic</em> and <code>code</code> and <a href=\"http://x\">text</a>'') = 1
   \<and> count_sub (u ''<a href=\"http://x\">'')
         (u ''<strong>bold</strong> and <em>italic</em> and <code>code</code> and <a href=\"http://x\">text</a>'') = 1
   \<and> count_sub (u ''<a '')
         (u ''<strong>bold</strong> and <em>italic</em> and <code>code</code> and <a href=\"http://x\">text</a>'') = 1"
    by code_simp
  have c: "inline_format (u ''*a* and *b*'') = u ''<em>a</em> and <em>b</em>''
   \<and> inline_format (u ''***x***'') = u ''<strong><em>x</em></strong>''"
    by code_simp
  have d: "\<forall>s. inline_format s =
          re_sub re_link [Lit (u ''<a href=\"''), Ref 2, Lit (u ''\">''), Ref 1, Lit (u ''</a>'')]
            (re_sub re_code [Lit (u ''<code>''), Ref 1, Lit (u ''</code>'')]
              (re_sub re_italic [Lit (u ''<em>''), Ref 1, Lit (u ''</em>'')]
                (re_sub re_bold [Lit (u ''<strong>''), Ref 1, Lit (u ''</strong>'')]
                  (re_sub re_bold_italic
                     [Lit (u ''<strong><em>''), Ref 1, Lit (u ''</em></strong>'')] s))))"
    by (simp add: inline_format_def Let_def)
  show ?thesis
    using b c d unfolding a by blast
qed

section \<open>Lines inside a code fence\<close>

lemma md_line_in_code:
  "in_code st \<Longrightarrow> \<not> startswith (str_strip l) (u ''```'') \<Longrightarrow>
   md_line st l = emit (html_escape l) st"
  by (simp add: md_line_def)

lemma md_line_close_fence:
  "in_code st \<Longrightarrow> startswith (str_strip l) (u ''```'') \<Longrightarrow>
   md_line st l = (emit (u ''</code></pre>'') st)\<lparr>in_code := False\<rparr>"
  by (simp add: md_line_def)

lemma foldl_in_code:
  "in_code st \<Longrightarrow> list_all (\<lambda>l. \<not> startswith (str_strip l) (u ''```'')) ls \<Longrightarrow>
   foldl md_line st ls = st\<lparr>result := result st @ map html_escape ls\<rparr>"
proof (induction ls arbitrary: st)
  case Nil
  then show ?case by simp
next
  case (Cons l ls)
  have a: "md_line st l = emit (html_escape l) st"
    using Cons.prems by (simp add: md_line_in_code)
  have b: "in_code (emit (html_escape l) st)"
    using Cons.prems by (simp add: emit_def)
  show ?case
    using Cons.prems Cons.IH [OF b] by (simp add: a emit_def)
qed

text \<open>
  C7: while the fence is open, every line that is not a fence line is emitted as
  \<open>html.escape\<close> of the line as it stands (not stripped, no inline formatting), the
  flags unchanged; the next fence line emits the closing fragment and leaves the mode.
\<close>

theorem code_fence_lines_escaped:
  assumes "in_code st"
    and "list_all (\<lambda>l. \<not> startswith (str_strip l) (u ''```'')) ls"
    and "startswith (str_strip fence) (u ''```'')"
  shows "foldl md_line st ls = st\<lparr>result := result st @ map html_escape ls\<rparr>
       \<and> foldl md_line st (ls @ [fence])
           = st\<lparr>result := result st @ map html_escape ls @ [u ''</code></pre>''],
                 in_code := False\<rparr>"
proof -
  have a: "foldl md_line st ls = st\<lparr>result := result st @ map html_escape ls\<rparr>"
    using assms(1,2) by (rule foldl_in_code)
  have "in_code (st\<lparr>result := result st @ map html_escape ls\<rparr>)"
    using assms(1) by simp
  then have "md_line (st\<lparr>result := result st @ map html_escape ls\<rparr>) fence
             = (emit (u ''</code></pre>'') (st\<lparr>result := result st @ map html_escape ls\<rparr>))
                 \<lparr>in_code := False\<rparr>"
    using assms(3) by (rule md_line_close_fence)
  then show ?thesis
    using a by (simp add: emit_def)
qed

theorem code_fence_lines_escaped_witness:
  "foldl md_line (md_line md_init (u ''```python'')) [u ''  <script>'', u ''*a* & b'']
     = (md_line md_init (u ''```python''))
         \<lparr>result := result (md_line md_init (u ''```python''))
                      @ map html_escape [u ''  <script>'', u ''*a* & b'']\<rparr>
   \<and> foldl md_line (md_line md_init (u ''```python'')) ([u ''  <script>'', u ''*a* & b''] @ [u ''```''])
     = (md_line md_init (u ''```python''))
         \<lparr>result := result (md_line md_init (u ''```python''))
                      @ map html_escape [u ''  <script>'', u ''*a* & b''] @ [u ''</code></pre>''],
           in_code := False\<rparr>
   \<and> md_fragments (u ''```python'' @ [10] @ u ''  <script>'' @ [10] @ u ''*a* & b'' @ [10] @ u ''```'')
     = [u ''<pre><code>'', u ''  &lt;script&gt;'', u ''*a* &amp; b'', u ''</code></pre>'']"
proof -
  have a: "in_code (md_line md_init (u ''```python''))"
    by code_simp
  have b: "list_all (\<lambda>l. \<not> startswith (str_strip l) (u ''```'')) [u ''  <script>'', u ''*a* & b'']"
    by code_simp
  have c: "startswith (str_strip (u ''```'')) (u ''```'')"
    by code_simp
  have d: "md_fragments (u ''```python'' @ [10] @ u ''  <script>'' @ [10] @ u ''*a* & b'' @ [10] @ u ''```'')
     = [u ''<pre><code>'', u ''  &lt;script&gt;'', u ''*a* &amp; b'', u ''</code></pre>'']"
    by code_simp
  from code_fence_lines_escaped [OF a b c] d show ?thesis
    by blast
qed

section \<open>The date normalizer never fails\<close>

lemma strptime_error: "strptime a b = Inl e \<Longrightarrow> e = ValueError"
  by (auto simp: strptime_def Let_def split: sum.splits option.splits if_splits prod.splits)

lemma try_formats_total: "\<exists>d. try_formats fs s = Inr d"
proof (induction fs)
  case Nil
  then show ?case by simp
next
  case (Cons f fs)
  then show ?case
    by (auto split: sum.splits dest: strptime_error)
qed

lemma try_formats_none:
  "list_all (\<lambda>f. isl (strptime (str_strip s) f)) fs \<Longrightarrow> try_formats fs s = Inr datetime_min"
  by (induction fs) (auto split: sum.splits dest: strptime_error)

text \<open>
  C5: for every text, \<open>parse_date\<close> returns a datetime and no error leaves it; when
  \<open>strptime\<close> fails on each of the four formats, the value is \<open>datetime.min\<close>.
\<close>

theorem parse_date_never_fails:
  "(\<exists>d. parse_date s = Inr d)
   \<and> (list_all (\<lambda>f. isl (strptime (str_strip s) f)) formats \<longrightarrow> parse_date s = Inr datetime_min)"
  using try_formats_total [of formats s] try_formats_none [of s formats]
  by (simp add: parse_date_def)

theorem parse_date_never_fails_witness:
  "(\<exists>d. parse_date (u ''not a date'') = Inr d)
   \<and> list_all (\<lambda>f. isl (strptime (str_strip (u ''not a date'')) f)) formats
   \<and> parse_date (u ''not a date'') = Inr datetime_min
   \<and> list_all (\<lambda>f. isl (strptime (str_strip (u '''')) f)) formats
   \<and> parse_date (u '''') = Inr datetime_min"
proof -
  have a: "list_all (\<lambda>f. isl (strptime (str_strip (u ''not a date'')) f)) formats"
    by code_simp
  have b: "list_all (\<lambda>f. isl (strptime (str_strip (u '''')) f)) formats"
    by code_simp
  from parse_date_never_fails [of "u ''not a date''"] parse_date_never_fails [of "u ''''"] a b
  show ?thesis
    by blast
qed

section \<open>Horizontal rules\<close>

text \<open>
  C3, at a line of four hyphens: the test for a rule accepts the three texts of length
  three only, so the line falls through to the paragraph rule and no rule fragment is
  emitted; a line of three hyphens gives the rule.
\<close>

theorem hr_needs_exactly_three:
  "md_fragments (u ''----'') = [u ''<p>----</p>'']
   \<and> md_to_html (u ''----'') = u ''<p>----</p>''
   \<and> md_fragments (u ''---'') = [u ''<hr>'']"
  by code_simp

section \<open>The two list modes\<close>

text \<open>
  C1, at an ordered item followed by an unordered one: the unordered branch leaves the
  loop before the ordered list is closed, so after the second line both list flags are
  set and the \<open>ul\<close> element opens inside the open \<open>ol\<close>. In the other order the
  \<open>ul\<close> element is closed before the \<open>ol\<close> element opens. The fence and heading
  branches leave the loop early in the same way: a fence opens while the list flag
  stays set, and a heading is emitted before the list is closed.
\<close>

theorem list_modes_overlap:
  "in_ol (md_run (u ''1. a'' @ [10] @ u ''- b''))
   \<and> in_list (md_run (u ''1. a'' @ [10] @ u ''- b''))
   \<and> md_fragments (u ''1. a'' @ [10] @ u ''- b'')
       = [u ''<ol>'', u ''<li>a</li>'', u ''<ul>'', u ''<li>b</li>'', u ''</ul>'', u ''</ol>'']
   \<and> md_fragments (u ''- a'' @ [10] @ u ''1. b'')
       = [u ''<ul>'', u ''<li>a</li>'', u ''</ul>'', u ''<ol>'', u ''<li>b</li>'', u ''</ol>'']
   \<and> in_list (md_run (u ''- a'' @ [10] @ u ''```''))
   \<and> in_code (md_run (u ''- a'' @ [10] @ u ''```''))
   \<and> md_fragments (u ''- a'' @ [10] @ u ''## H'')
       = [u ''<ul>'', u ''<li>a</li>'', u ''<h3>H</h3>'', u ''</ul>'']"
  by code_simp

section \<open>The sort keys of dates\<close>

lemma strptime_fields:
  "strptime a b = Inr d \<Longrightarrow>
   1 \<le> year d \<and> 1 \<le> month d \<and> 1 \<le> day d \<and> hour d = 0 \<and> minute d = 0 \<and> second d = 0
   \<and> microsecond d = 0"
  by (auto simp: strptime_def Let_def valid_date_def
           split: sum.splits option.splits if_splits prod.splits)

lemma try_formats_fields:
  "try_formats fs s = Inr d \<Longrightarrow>
   1 \<le> year d \<and> 1 \<le> month d \<and> 1 \<le> day d \<and> hour d = 0 \<and> minute d = 0 \<and> second d = 0
   \<and> microsecond d = 0"
proof (induction fs)
  case Nil
  then show ?case by (auto simp: datetime_min_def)
next
  case (Cons f fs)
  show ?case
  proof (cases "strptime (str_strip s) f")
    case (Inl e)
    then show ?thesis using Cons by (auto split: if_splits)
  next
    case (Inr d')
    then have "d' = d" using Cons.prems by simp
    then show ?thesis using Inr strptime_fields by blast
  qed
qed

lemma min_below:
  assumes "1 \<le> year d \<and> 1 \<le> month d \<and> 1 \<le> day d \<and> hour d = 0 \<and> minute d = 0 \<and> second d = 0
   \<and> microsecond d = 0" and "d \<noteq> datetime_min"
  shows "dt_less datetime_min d"
proof -
  have "year d \<noteq> 1 \<or> month d \<noteq> 1 \<or> day d \<noteq> 1"
    using assms by (cases d) (auto simp: datetime_min_def)
  then show ?thesis
    using assms(1) by (auto simp: dt_less_def dt_fields_def datetime_min_def)
qed

text \<open>
  C4, as the code has it: the three spellings of 25 February 2026 have one key; the
  empty text and \<open>not a date\<close> have the key \<open>datetime.min\<close>; no key is below
  \<open>datetime.min\<close>, and every key other than \<open>datetime.min\<close> itself is above it. So the
  sentinel sorts after every date but 1 January of the year 1, with which it ties.
\<close>

theorem parse_date_keys:
  "parse_date (u ''February 25, 2026'') = parse_date (u ''2026-02-25'')
   \<and> parse_date (u ''25 February 2026'') = parse_date (u ''2026-02-25'')
   \<and> parse_date (u '''') = Inr datetime_min
   \<and> parse_date (u ''not a date'') = Inr datetime_min
   \<and> (parse_date s = Inr d \<longrightarrow>
        \<not> dt_less d datetime_min \<and> (d \<noteq> datetime_min \<longrightarrow> dt_less datetime_min d))"
proof -
  have a: "parse_date (u ''February 25, 2026'') = parse_date (u ''2026-02-25'')
   \<and> parse_date (u ''25 February 2026'') = parse_date (u ''2026-02-25'')
   \<and> parse_date (u '''') = Inr datetime_min
   \<and> parse_date (u ''not a date'') = Inr datetime_min"
    by code_simp
  have b: "parse_date s = Inr d \<longrightarrow> d \<noteq> datetime_min \<longrightarrow> dt_less datetime_min d"
    using try_formats_fields [of formats s d] min_below [of d] by (auto simp: parse_date_def)
  have c: "parse_date s = Inr d \<longrightarrow> \<not> dt_less d datetime_min"
    using try_formats_fields [of formats s d]
    by (auto simp: parse_date_def dt_less_def dt_fields_def datetime_min_def)
  show ?thesis using a b c by blast
qed

theorem parse_date_keys_witness:
  "parse_date (u ''2026-02-25'')
     = Inr \<lparr>year = 2026, month = 2, day = 25, hour = 0, minute = 0, second = 0, microsecond = 0\<rparr>
   \<and> \<lparr>year = 2026, month = 2, day = 25, hour = 0, minute = 0, second = 0, microsecond = 0\<rparr>
       \<noteq> datetime_min
   \<and> dt_less datetime_min
       \<lparr>year = 2026, month = 2, day = 25, hour = 0, minute = 0, second = 0, microsecond = 0\<rparr>
   \<and> \<not> dt_less
       \<lparr>year = 2026, month = 2, day = 25, hour = 0, minute = 0, second = 0, microsecond = 0\<rparr>
       datetime_min"
proof -
  have a: "parse_date (u ''2026-02-25'')
     = Inr \<lparr>year = 2026, month = 2, day = 25, hour = 0, minute = 0, second = 0, microsecond = 0\<rparr>"
    by code_simp
  have b: "\<lparr>year = 2026, month = 2, day = 25, hour = 0, minute = 0, second = 0, microsecond = 0\<rparr>
       \<noteq> datetime_min"
    by (simp add: datetime_min_def)
  from parse_date_keys [of "u ''2026-02-25''"
      "\<lparr>year = 2026, month = 2, day = 25, hour = 0, minute = 0, second = 0, microsecond = 0\<rparr>"]
    a b show ?thesis
    by blast
qed

text \<open>
  The claim as it was stated fails at a valid date: \<open>0001-01-01\<close> is parsed by the
  second format, and its key is the sentinel itself, which therefore does not sort
  after it.
\<close>

theorem sentinel_ties_with_year_one:
  "strptime (u ''0001-01-01'') (u ''%Y-%m-%d'') = Inr datetime_min
   \<and> parse_date (u ''0001-01-01'') = Inr datetime_min
   \<and> parse_date (u '''') = Inr datetime_min
   \<and> \<not> dt_less datetime_min datetime_min"
  by code_simp

section \<open>The matcher on classes of characters\<close>

lemma sub_from_cls: "sub_from (Cls g) [] p s = filter (\<lambda>c. \<not> g c) s"
proof (induction s arbitrary: p)
  case Nil
  show ?case by (subst sub_from.simps) simp
next
  case (Cons x xs)
  show ?case by (subst sub_from.simps) (simp add: Cons.IH)
qed

lemma one_chr_Cls: "one_chr (Cls f) f"
  by (simp add: one_chr_def)

lemma one_chr_Chr: "one_chr (Chr a) (\<lambda>c. c = a)"
  by (simp add: one_chr_def)

lemma ms_star_hd:
  assumes "one_chr r f"
  shows "\<exists>rest. ms (Star r) p s c = (p + length (takeWhile f s), dropWhile f s, c) # rest"
proof (induction s arbitrary: p)
  case Nil
  show ?case using assms by (subst ms_Star) (simp add: one_chr_def)
next
  case (Cons x xs)
  show ?case
  proof (cases "f x")
    case True
    obtain rest where "ms (Star r) (Suc p) xs c
        = (Suc p + length (takeWhile f xs), dropWhile f xs, c) # rest"
      using Cons.IH by blast
    then show ?thesis using assms True by (subst ms_Star) (simp add: one_chr_def)
  next
    case False
    then show ?thesis using assms by (subst ms_Star) (simp add: one_chr_def)
  qed
qed

lemma ms_plus_Nil: "one_chr r f \<Longrightarrow> ms (Plus r) p [] c = []"
  by (simp add: Plus_def one_chr_def)

lemma ms_plus_no: "one_chr r f \<Longrightarrow> \<not> f x \<Longrightarrow> ms (Plus r) p (x # xs) c = []"
  by (simp add: Plus_def one_chr_def)

lemma ms_plus_yes:
  assumes "one_chr r f" and "f x"
  shows "\<exists>rest. ms (Plus r) p (x # xs) c
           = (Suc p + length (takeWhile f xs), dropWhile f xs, c) # rest"
proof -
  have "ms (Plus r) p (x # xs) c = ms (Star r) (Suc p) xs c"
    using assms by (simp add: Plus_def one_chr_def)
  then show ?thesis using ms_star_hd [OF assms(1), of "Suc p" xs c] by simp
qed

lemma sub_from_plus:
  assumes "one_chr r g"
  shows "sub_from (Plus r) [Lit t] p s = squeeze g t s"
  using assms
proof (induction g t s arbitrary: p rule: squeeze.induct)
  case (1 f t)
  show ?case using ms_plus_Nil [OF 1] by (subst sub_from.simps) simp
next
  case (2 f t x xs)
  show ?case
  proof (cases "f x")
    case True
    obtain rest where m: "ms (Plus r) p (x # xs) []
           = (Suc p + length (takeWhile f xs), dropWhile f xs, []) # rest"
      using ms_plus_yes [OF "2.prems" True] by blast
    have l: "length (dropWhile f xs) < length (x # xs)"
      by (simp add: less_Suc_eq_le length_dropWhile_le)
    show ?thesis
      using True m l "2.IH"(1) [OF True "2.prems"]
      by (subst sub_from.simps) (simp add: group_def)
  next
    case False
    show ?thesis
      using False ms_plus_no [OF "2.prems" False] "2.IH"(2) [OF False "2.prems"]
      by (subst sub_from.simps) simp
  qed
qed

lemma set_squeeze: "x \<in> set (squeeze f t s) \<Longrightarrow> x \<in> set t \<or> (x \<in> set s \<and> \<not> f x)"
  by (induction f t s rule: squeeze.induct) (auto split: if_splits dest: set_dropWhileD)

lemma squeeze_id: "list_all (\<lambda>c. \<not> f c) s \<Longrightarrow> squeeze f t s = s"
  by (induction s) auto

lemma squeeze_no_double: "\<not> sublist [a, a] (squeeze (\<lambda>c. c = a) [a] s)"
proof (induction "\<lambda>c. c = a" "[a]" s rule: squeeze.induct)
  case 1
  show ?case by simp
next
  case (2 x xs)
  show ?case
  proof (cases "x = a")
    case True
    have ih: "\<not> sublist [a, a] (squeeze (\<lambda>c. c = a) [a] (dropWhile (\<lambda>c. c = a) xs))"
      using 2(1) True by simp
    have "\<not> prefix [a] (squeeze (\<lambda>c. c = a) [a] (dropWhile (\<lambda>c. c = a) xs))"
    proof (cases "dropWhile (\<lambda>c. c = a) xs")
      case Nil
      then show ?thesis by (simp del: dropWhile_eq_Nil_conv)
    next
      case (Cons y ys)
      then have "y \<noteq> a" by (metis (mono_tags, lifting) dropWhile_eq_Cons_conv)
      then show ?thesis using Cons by simp
    qed
    then show ?thesis using True ih by (simp add: sublist_Cons_right)
  next
    case False
    then show ?thesis using 2(2) by (simp add: sublist_Cons_right)
  qed
qed

lemma squeeze_single_id:
  "\<not> sublist [a, a] s \<Longrightarrow> squeeze (\<lambda>c. c = a) [a] s = s"
proof (induction s)
  case Nil
  show ?case by simp
next
  case (Cons x xs)
  have t: "\<not> sublist [a, a] xs" using Cons.prems by (simp add: sublist_Cons_right)
  show ?case
  proof (cases "x = a")
    case True
    have "\<not> prefix [a] xs" using Cons.prems True by (simp add: sublist_Cons_right)
    then have "dropWhile (\<lambda>c. c = a) xs = xs" by (cases xs) auto
    then show ?thesis using True Cons.IH [OF t] by simp
  next
    case False
    then show ?thesis using Cons.IH [OF t] by simp
  qed
qed

lemma squeeze_all:
  "list_all f s \<Longrightarrow> squeeze f t s = (if s = [] then [] else t)"
proof (cases s)
  case Nil
  then show ?thesis by simp
next
  case (Cons x xs)
  assume a: "list_all f s"
  then have "dropWhile f xs = []" using Cons by (simp add: list_all_iff)
  then show ?thesis using a Cons by (simp del: dropWhile_eq_Nil_conv)
qed


lemma rstrip_Cons:
  "rstrip P (x # xs) = (if rstrip P xs = [] \<and> P x then [] else x # rstrip P xs)"
  by (simp add: rstrip_def dropWhile_append)

lemma rstrip_Nil: "rstrip P [] = []"
  by (simp add: rstrip_def)

lemma rstrip_empty_iff: "rstrip P s = [] \<longleftrightarrow> list_all P s"
  by (simp add: rstrip_def list_all_iff)

lemma strip_commute: "dropWhile P (rstrip P s) = rstrip P (dropWhile P s)"
proof (induction s)
  case Nil
  show ?case by (simp add: rstrip_Nil)
next
  case (Cons x xs)
  show ?case
  proof (cases "P x")
    case True
    show ?thesis
    proof (cases "rstrip P xs = []")
      case True
      then have "list_all P xs" by (simp add: rstrip_empty_iff)
      then have h: "dropWhile P xs = []" by (simp add: list_all_iff)
      show ?thesis using \<open>P x\<close> True by (simp add: rstrip_Cons h rstrip_Nil)
    next
      case False
      then show ?thesis using \<open>P x\<close> Cons.IH by (simp add: rstrip_Cons)
    qed
  next
    case False
    then show ?thesis by (simp add: rstrip_Cons)
  qed
qed

lemma rstrip_idem: "rstrip P (rstrip P s) = rstrip P s"
  by (simp add: rstrip_def)

lemma strip_idem:
  "rstrip P (dropWhile P (rstrip P (dropWhile P s))) = rstrip P (dropWhile P s)"
  by (simp add: strip_commute rstrip_idem)

lemma strip_sublist: "sublist (rstrip P (dropWhile P s)) s"
proof -
  have "sublist (dropWhile P (rev (dropWhile P s))) (rev (dropWhile P s))"
    by (rule sublist_dropWhile)
  then have "sublist (rstrip P (dropWhile P s)) (dropWhile P s)"
    using sublist_rev [of "dropWhile P (rev (dropWhile P s))" "rev (dropWhile P s)"]
    by (simp add: rstrip_def)
  moreover have "sublist (dropWhile P s) s"
    by (rule sublist_dropWhile)
  ultimately show ?thesis
    by (rule sublist_order.order.trans)
qed

lemma str_strip_alt: "str_strip s = rstrip is_space (dropWhile is_space s)"
  by (simp add: str_strip_def rstrip_def)

lemma strip_chr_alt: "strip_chr a s = rstrip (\<lambda>c. c = a) (dropWhile (\<lambda>c. c = a) s)"
  by (simp add: strip_chr_def rstrip_def)

section \<open>Slugs are fixed points\<close>

lemma slugify_alt:
  "slugify title
     = strip_chr 45 (squeeze (\<lambda>c. c = 45) [45]
         (squeeze is_space [45] (filter slug_keep (str_lower title))))"
  by (simp add: slugify_def Let_def re_sub_def sub_from_cls u_def
        sub_from_plus [OF one_chr_Cls] sub_from_plus [OF one_chr_Chr])

lemma slug_chr_not_space: "slug_chr c \<Longrightarrow> \<not> is_space c"
  by (auto simp: slug_chr_def is_space_def)

lemma slug_chr_keep: "slug_chr c \<Longrightarrow> slug_keep c"
  by (auto simp: slug_chr_def slug_keep_def)

lemma run_lookup_low:
  "c < 192 \<Longrightarrow> run_lookup c lower_runs = (if 65 \<le> c \<and> c \<le> 90 then Some (c + 32) else None)"
  by (auto simp: lower_runs_def)

lemma slug_chr_lower: "slug_chr c \<Longrightarrow> lower_cp c = [c]"
  by (auto simp: slug_chr_def lower_cp_def run_lookup_low)

lemma keep_not_space: "slug_keep c \<Longrightarrow> \<not> is_space c \<Longrightarrow> slug_chr c"
  by (auto simp: slug_chr_def slug_keep_def)

lemma lower_from_id: "list_all slug_chr s \<Longrightarrow> lower_from prev s = s"
proof (induction s arbitrary: prev)
  case Nil
  show ?case by simp
next
  case (Cons c cs)
  have "slug_chr c" using Cons.prems by simp
  then have "c \<noteq> 0x3A3" "lower_cp c = [c]"
    by (auto simp: slug_chr_def slug_chr_lower)
  then show ?case using Cons by simp
qed

lemma str_lower_id: "list_all slug_chr s \<Longrightarrow> str_lower s = s"
  by (simp add: str_lower_def lower_from_id)

lemma slugify_chars: "list_all slug_chr (slugify title)"
proof -
  have "x \<in> set (slugify title) \<Longrightarrow> slug_chr x" for x
  proof -
    assume "x \<in> set (slugify title)"
    then have "x \<in> set (squeeze (\<lambda>c. c = 45) [45]
         (squeeze is_space [45] (filter slug_keep (str_lower title))))"
      using set_mono_sublist [OF strip_sublist] by (auto simp: slugify_alt strip_chr_alt)
    then have "x = 45 \<or> x \<in> set (squeeze is_space [45] (filter slug_keep (str_lower title)))"
      using set_squeeze by fastforce
    then have "x = 45 \<or> (x \<in> set (filter slug_keep (str_lower title)) \<and> \<not> is_space x)"
      using set_squeeze by fastforce
    then show "slug_chr x"
      using keep_not_space by (auto simp: slug_chr_def)
  qed
  then show ?thesis by (simp add: list_all_iff)
qed

lemma slugify_no_double: "\<not> sublist [45, 45] (slugify title)"
proof
  assume "sublist [45, 45] (slugify title)"
  then have "sublist [45, 45] (squeeze (\<lambda>c. c = 45) [45]
         (squeeze is_space [45] (filter slug_keep (str_lower title))))"
    using strip_sublist sublist_order.order.trans by (fastforce simp: slugify_alt strip_chr_alt)
  then show False using squeeze_no_double by blast
qed

lemma slugify_stripped: "strip_chr 45 (slugify title) = slugify title"
  by (simp add: slugify_alt strip_chr_alt strip_idem)

text \<open>
  C9: the slug of a slug is the slug itself, for every title: a slug has only lowercase
  ASCII letters, digits and single hyphens, none at either end, and each step of
  \<open>slugify\<close> leaves such a text as it is.
\<close>

theorem slugify_fixed_point: "slugify (slugify title) = slugify title"
proof -
  have a: "str_lower (slugify title) = slugify title"
    using slugify_chars [of title] by (rule str_lower_id)
  have b: "filter slug_keep (slugify title) = slugify title"
    using slugify_chars [of title] by (auto simp: list_all_iff slug_chr_keep)
  have c: "squeeze is_space [45] (slugify title) = slugify title"
    using slugify_chars [of title] by (intro squeeze_id) (auto simp: list_all_iff slug_chr_not_space)
  have d: "squeeze (\<lambda>c. c = 45) [45] (slugify title) = slugify title"
    using slugify_no_double by (rule squeeze_single_id)
  have "slugify (slugify title) = strip_chr 45 (slugify title)"
    by (subst slugify_alt) (simp add: a b c d)
  then show ?thesis by (simp add: slugify_stripped)
qed

theorem slugify_fixed_point_witness:
  "slugify (slugify (u ''  Hello,  World -- 2nd_Ed!  '')) = slugify (u ''  Hello,  World -- 2nd_Ed!  '')
   \<and> slugify (u ''  Hello,  World -- 2nd_Ed!  '') = u ''hello-world-2nded''"
proof -
  have "slugify (u ''  Hello,  World -- 2nd_Ed!  '') = u ''hello-world-2nded''"
    by code_simp
  then show ?thesis
    using slugify_fixed_point [of "u ''  Hello,  World -- 2nd_Ed!  ''"] by simp
qed

section \<open>Titles without letters and digits\<close>

lemma run_lookup_sound:
  "run_lookup c rs = Some x \<Longrightarrow>
   \<exists>r \<in> set rs. fst r \<le> c \<and> c \<le> fst (snd r) \<and> x = snd (snd (snd r)) + (c - fst r)"
proof (induction rs)
  case Nil
  then show ?case by simp
next
  case (Cons r rs)
  obtain lo hi step target where r: "r = (lo, hi, step, target)"
    by (cases r) auto
  show ?case
  proof (cases "lo \<le> c \<and> c \<le> hi \<and> (c - lo) mod step = 0")
    case True
    then have "x = target + (c - lo)" using Cons.prems r by simp
    then show ?thesis using True r by simp
  next
    case False
    then have "run_lookup c rs = Some x"
      using Cons.prems r by (auto split: if_splits)
    then show ?thesis using Cons.IH by auto
  qed
qed

lemma lower_runs_targets:
  "list_all (\<lambda>r. 128 \<le> snd (snd (snd r)) \<or> (65 \<le> fst r \<and> fst (snd r) \<le> 90)
                \<or> (fst r = 0x212A \<and> fst (snd r) = 0x212A)) lower_runs"
  by (simp add: lower_runs_def)

lemma lower_no_alnum:
  assumes "\<not> ascii_alnum c" and "c \<noteq> 0x130" and "c \<noteq> 0x212A" and "x \<in> set (lower_cp c)"
  shows "\<not> ascii_alnum x"
proof (cases "run_lookup c lower_runs")
  case None
  then have "x = c" using assms(2,4) by (simp add: lower_cp_def)
  then show ?thesis using assms(1) by simp
next
  case (Some l)
  then have xl: "x = l" using assms(2,4) by (simp add: lower_cp_def)
  obtain r where r: "r \<in> set lower_runs" "fst r \<le> c" "c \<le> fst (snd r)"
    "l = snd (snd (snd r)) + (c - fst r)"
    using run_lookup_sound [OF Some] by blast
  have "128 \<le> snd (snd (snd r)) \<or> (65 \<le> fst r \<and> fst (snd r) \<le> 90)
          \<or> (fst r = 0x212A \<and> fst (snd r) = 0x212A)"
    using lower_runs_targets r(1) by (simp add: list_all_iff)
  then have "128 \<le> l"
    using r(2,3,4) assms(1,3) by (auto simp: ascii_alnum_def)
  then show ?thesis using xl by (simp add: ascii_alnum_def)
qed

lemma lower_from_elems:
  "x \<in> set (lower_from prev s) \<Longrightarrow>
   x = 0x3C2 \<or> x = 0x3C3 \<or> (\<exists>c \<in> set s. x \<in> set (lower_cp c))"
proof (induction s arbitrary: prev)
  case Nil
  then show ?case by simp
next
  case (Cons c cs)
  then show ?case by (auto split: if_splits)
qed

text \<open>
  C10, as the code has it: a title with no ASCII letter, no ASCII digit and neither of
  the two characters that \<open>lower()\<close> turns into an ASCII letter (U+0130 and the Kelvin
  sign U+212A) has the empty slug.
\<close>

theorem slugify_empty:
  assumes "list_all (\<lambda>c. \<not> ascii_alnum c \<and> c \<noteq> 0x130 \<and> c \<noteq> 0x212A) title"
  shows "slugify title = []"
proof -
  have a: "list_all (\<lambda>c. \<not> ascii_alnum c) (str_lower title)"
  proof -
    have "\<not> ascii_alnum x" if "x \<in> set (str_lower title)" for x
    proof -
      from that lower_from_elems [of x "[]" title]
      consider "x = 0x3C2" | "x = 0x3C3" | c where "c \<in> set title" "x \<in> set (lower_cp c)"
        by (auto simp: str_lower_def)
      then show ?thesis
      proof cases
        case 1
        then show ?thesis by (simp add: ascii_alnum_def)
      next
        case 2
        then show ?thesis by (simp add: ascii_alnum_def)
      next
        case 3
        then show ?thesis using assms lower_no_alnum by (auto simp: list_all_iff)
      qed
    qed
    then show ?thesis by (simp add: list_all_iff)
  qed
  have b: "list_all (\<lambda>c. is_space c \<or> c = 45) (filter slug_keep (str_lower title))"
    using a by (auto simp: list_all_iff slug_keep_def ascii_alnum_def)
  have c: "list_all (\<lambda>c. c = 45) (squeeze is_space [45] (filter slug_keep (str_lower title)))"
    using b set_squeeze [of _ is_space "[45]" "filter slug_keep (str_lower title)"]
    by (fastforce simp: list_all_iff)
  have d: "squeeze (\<lambda>c. c = 45) [45] (squeeze is_space [45] (filter slug_keep (str_lower title)))
             = [] \<or>
           squeeze (\<lambda>c. c = 45) [45] (squeeze is_space [45] (filter slug_keep (str_lower title)))
             = [45]"
    using squeeze_all [OF c, of "[45]"] by (auto split: if_splits)
  then show ?thesis
    by (auto simp: slugify_alt strip_chr_def)
qed


theorem slugify_empty_witness:
  "list_all (\<lambda>c. \<not> ascii_alnum c \<and> c \<noteq> 0x130 \<and> c \<noteq> 0x212A) (u ''?! - _'' @ [0xE9, 0xA0, 0x4E2D])
   \<and> slugify (u ''?! - _'' @ [0xE9, 0xA0, 0x4E2D]) = []"
proof -
  have a: "list_all (\<lambda>c. \<not> ascii_alnum c \<and> c \<noteq> 0x130 \<and> c \<noteq> 0x212A)
             (u ''?! - _'' @ [0xE9, 0xA0, 0x4E2D])"
    by code_simp
  from a slugify_empty [OF a] show ?thesis
    by (rule conjI)
qed

text \<open>
  The claim as it was stated fails at the Kelvin sign and at U+0130: neither is an ASCII
  letter or a digit, and \<open>lower()\<close> makes the first a \<open>k\<close> and the second an \<open>i\<close>
  with a combining dot, so the slugs are \<open>k\<close> and \<open>i\<close>.
\<close>

theorem slugify_kelvin_sign:
  "list_all (\<lambda>c. \<not> ascii_alnum c) [0x212A] \<and> slugify [0x212A] = u ''k''
   \<and> list_all (\<lambda>c. \<not> ascii_alnum c) [0x130] \<and> slugify [0x130] = u ''i''
   \<and> slugify [0x212A] \<noteq> []"
  by code_simp

section \<open>Three list items\<close>

lemma str_split_plain: "sep \<notin> set x \<Longrightarrow> str_split sep x = [x]"
  by (induction x) auto

lemma str_split_append:
  "sep \<notin> set x \<Longrightarrow> str_split sep (x @ sep # rest) = x # str_split sep rest"
proof (induction x)
  case Nil
  show ?case by simp
next
  case (Cons c cs)
  then show ?case by (cases "str_split sep rest") auto
qed

lemma rstrip_nonempty: "\<not> list_all P s \<Longrightarrow> rstrip P s \<noteq> []"
  by (simp add: rstrip_empty_iff)

lemma strip_item:
  assumes "\<not> list_all is_space a"
  shows "str_strip (45 # 32 # a) = 45 # 32 # rstrip is_space a"
proof -
  have "\<not> is_space 45" by (simp add: is_space_def)
  then have "str_strip (45 # 32 # a) = rstrip is_space (45 # 32 # a)"
    by (simp add: str_strip_alt)
  then show ?thesis
    using rstrip_nonempty [OF assms] by (simp add: rstrip_Cons)
qed

lemma sub_from_bol: "0 < p \<Longrightarrow> sub_from (Seq Bol r) t p s = s"
proof (induction s arbitrary: p)
  case Nil
  then show ?case by (subst sub_from.simps) simp
next
  case (Cons x xs)
  then show ?case by (subst sub_from.simps) simp
qed

lemma heading_no_match: "re_match re_heading (45 # s) = None"
  by (simp add: re_match_def re_heading_def eval_nat_numeral)

lemma ul_match:
  "\<exists>rest. ms re_ul 0 (45 # 32 # s) []
     = (Suc (Suc (length (takeWhile is_space s))), dropWhile is_space s, []) # rest"
proof -
  have sp: "is_space 32" by (simp add: is_space_def)
  have "ms re_ul 0 (45 # 32 # s) [] = ms (Plus (Cls is_space)) (Suc 0) (32 # s) []"
    by (simp add: re_ul_def)
  then show ?thesis
    using ms_plus_yes [where r = "Cls is_space" and f = is_space, OF one_chr_Cls sp, of "Suc 0" s "[]"]
    by simp
qed

lemma ul_is_match: "re_match re_ul (45 # 32 # s) \<noteq> None"
  using ul_match [of s] by (auto simp: re_match_def)

lemma ul_sub: "re_sub re_ul [] (45 # 32 # s) = dropWhile is_space s"
proof -
  obtain rest where m: "ms re_ul 0 (45 # 32 # s) []
     = (Suc (Suc (length (takeWhile is_space s))), dropWhile is_space s, []) # rest"
    using ul_match by blast
  have l: "length (dropWhile is_space s) < length (45 # 32 # s)"
    using length_dropWhile_le [of is_space s] by simp
  have "sub_from re_ul [] 0 (45 # 32 # s)
          = sub_from re_ul [] (Suc (Suc (length (takeWhile is_space s)))) (dropWhile is_space s)"
    using m l by (subst sub_from.simps) simp
  also have "\<dots> = dropWhile is_space s"
    unfolding re_ul_def by (rule sub_from_bol) simp
  finally show ?thesis by (simp add: re_sub_def)
qed

lemma md_line_item:
  assumes "\<not> in_code st" and "\<not> in_blockquote st" and "\<not> list_all is_space a"
  shows "md_line st (u ''- '' @ a)
           = emit (u ''<li>'' @ inline_format (str_strip a) @ u ''</li>'')
               (if in_list st then st else (emit (u ''<ul>'') st)\<lparr>in_list := True\<rparr>)"
proof -
  have e: "u ''- '' @ a = 45 # 32 # a"
    by (simp add: u_def)
  have s: "str_strip (45 # 32 # a) = 45 # 32 # rstrip is_space a"
    using assms(3) by (rule strip_item)
  have c: "dropWhile is_space (rstrip is_space a) = str_strip a"
    by (simp add: strip_commute str_strip_alt)
  show ?thesis
    unfolding e using assms(1,2)
    by (simp add: md_line_def md_block_def s Let_def flush_blockquote_def heading_no_match
          ul_is_match ul_sub c u_def)
qed

text \<open>
  C8, as the code has it: three lines that each start with a hyphen and a blank and
  have a character that is not whitespace behind them give one \<open>ul\<close> fragment, the
  three \<open>li\<close> fragments of their stripped and formatted texts, and one closing
  fragment.
\<close>

theorem three_items_one_list:
  assumes "10 \<notin> set a" and "10 \<notin> set b" and "10 \<notin> set c"
    and "\<not> list_all is_space a" and "\<not> list_all is_space b" and "\<not> list_all is_space c"
  shows "md_fragments (u ''- '' @ a @ [10] @ u ''- '' @ b @ [10] @ u ''- '' @ c)
           = [u ''<ul>'',
              u ''<li>'' @ inline_format (str_strip a) @ u ''</li>'',
              u ''<li>'' @ inline_format (str_strip b) @ u ''</li>'',
              u ''<li>'' @ inline_format (str_strip c) @ u ''</li>'',
              u ''</ul>'']"
proof -
  have sp: "str_split 10 (u ''- '' @ a @ [10] @ u ''- '' @ b @ [10] @ u ''- '' @ c)
              = [u ''- '' @ a, u ''- '' @ b, u ''- '' @ c]"
  proof -
    have n: "10 \<notin> set (u ''- '' @ a)" "10 \<notin> set (u ''- '' @ b)" "10 \<notin> set (u ''- '' @ c)"
      using assms(1-3) by (simp_all add: u_def)
    have "str_split 10 ((u ''- '' @ a) @ 10 # (u ''- '' @ b) @ 10 # (u ''- '' @ c))
            = [u ''- '' @ a, u ''- '' @ b, u ''- '' @ c]"
      by (simp only: str_split_append [OF n(1)] str_split_append [OF n(2)] str_split_plain [OF n(3)])
    then show ?thesis by simp
  qed
  define s1 where "s1 = md_line md_init (u ''- '' @ a)"
  define s2 where "s2 = md_line s1 (u ''- '' @ b)"
  define s3 where "s3 = md_line s2 (u ''- '' @ c)"
  have r1: "s1 = \<lparr>result = [u ''<ul>'', u ''<li>'' @ inline_format (str_strip a) @ u ''</li>''],
                  in_list = True, in_ol = False, in_code = False, in_blockquote = False,
                  bq_lines = []\<rparr>"
    unfolding s1_def by (subst md_line_item [OF _ _ assms(4)]) (simp_all add: md_init_def emit_def)
  have r2: "s2 = \<lparr>result = [u ''<ul>'', u ''<li>'' @ inline_format (str_strip a) @ u ''</li>'',
                            u ''<li>'' @ inline_format (str_strip b) @ u ''</li>''],
                  in_list = True, in_ol = False, in_code = False, in_blockquote = False,
                  bq_lines = []\<rparr>"
    unfolding s2_def by (subst md_line_item [OF _ _ assms(5)]) (simp_all add: r1 emit_def)
  have r3: "s3 = \<lparr>result = [u ''<ul>'', u ''<li>'' @ inline_format (str_strip a) @ u ''</li>'',
                            u ''<li>'' @ inline_format (str_strip b) @ u ''</li>'',
                            u ''<li>'' @ inline_format (str_strip c) @ u ''</li>''],
                  in_list = True, in_ol = False, in_code = False, in_blockquote = False,
                  bq_lines = []\<rparr>"
    unfolding s3_def by (subst md_line_item [OF _ _ assms(6)]) (simp_all add: r2 emit_def)
  have "md_run (u ''- '' @ a @ [10] @ u ''- '' @ b @ [10] @ u ''- '' @ c) = s3"
    by (simp only: md_run_def sp foldl.simps s1_def s2_def s3_def)
  then show ?thesis
    by (simp add: md_fragments_def md_finish_def r3 flush_blockquote_def emit_def Let_def)
qed

theorem three_items_one_list_witness:
  "10 \<notin> set (u ''one'') \<and> 10 \<notin> set (u ''  *two* '') \<and> 10 \<notin> set (u ''3'')
   \<and> \<not> list_all is_space (u ''one'') \<and> \<not> list_all is_space (u ''  *two* '')
   \<and> \<not> list_all is_space (u ''3'')
   \<and> md_fragments (u ''- '' @ u ''one'' @ [10] @ u ''- '' @ u ''  *two* '' @ [10] @ u ''- '' @ u ''3'')
       = [u ''<ul>'',
          u ''<li>'' @ inline_format (str_strip (u ''one'')) @ u ''</li>'',
          u ''<li>'' @ inline_format (str_strip (u ''  *two* '')) @ u ''</li>'',
          u ''<li>'' @ inline_format (str_strip (u ''3'')) @ u ''</li>'',
          u ''</ul>'']
   \<and> md_fragments (u ''- one'' @ [10] @ u ''-   *two* '' @ [10] @ u ''- 3'')
       = [u ''<ul>'', u ''<li>one</li>'', u ''<li><em>two</em></li>'', u ''<li>3</li>'', u ''</ul>'']"
proof -
  have a: "10 \<notin> set (u ''one'')" "10 \<notin> set (u ''  *two* '')" "10 \<notin> set (u ''3'')"
    by (simp_all add: u_def)
  have b: "\<not> list_all is_space (u ''one'')" "\<not> list_all is_space (u ''  *two* '')"
    "\<not> list_all is_space (u ''3'')"
    by (simp_all add: u_def is_space_def)
  have c: "md_fragments (u ''- one'' @ [10] @ u ''-   *two* '' @ [10] @ u ''- 3'')
       = [u ''<ul>'', u ''<li>one</li>'', u ''<li><em>two</em></li>'', u ''<li>3</li>'', u ''</ul>'']"
    by code_simp
  from three_items_one_list [OF a b] a b c show ?thesis
    by blast
qed

text \<open>
  The claim as it was stated fails when nothing follows the marker: the line is
  stripped before it is matched, the blank is gone, and each line is a paragraph.
\<close>

theorem bare_markers_are_paragraphs:
  "startswith (u ''- '') (u ''- '')
   \<and> md_fragments (u ''- '' @ [10] @ u ''- '' @ [10] @ u ''- '')
       = [u ''<p>-</p>'', u ''<p>-</p>'', u ''<p>-</p>'']"
  by code_simp

section \<open>A document without frontmatter\<close>

lemma blanks_then_newline:
  "list_all is_space w \<Longrightarrow>
   \<exists>v. dropWhile (\<lambda>c. is_space c \<and> c \<noteq> 10) (w @ 10 # r) = 10 # v @ r"
proof (induction w)
  case Nil
  then show ?case by simp
next
  case (Cons x xs)
  show ?case
  proof (cases "x = 10")
    case True
    then have "dropWhile (\<lambda>c. is_space c \<and> c \<noteq> 10) ((x # xs) @ 10 # r) = 10 # (xs @ [10]) @ r"
      by simp
    then show ?thesis by blast
  next
    case False
    then show ?thesis using Cons by simp
  qed
qed

lemma delimiter_line_shape:
  assumes "list_all is_space w"
  shows "\<exists>v. delimiter_line (u ''---'' @ w @ 10 # r) = Some (v @ r)"
proof -
  obtain v where "dropWhile (\<lambda>c. is_space c \<and> c \<noteq> 10) (w @ 10 # r) = 10 # v @ r"
    using blanks_then_newline [OF assms] by blast
  then have "delimiter_line (u ''---'' @ w @ 10 # r) = Some (v @ r)"
    by (simp add: delimiter_line_def u_def)
  then show ?thesis by blast
qed

lemma closing_append: "closing_delimiter r \<Longrightarrow> closing_delimiter (v @ r)"
  by (induction v) auto

lemma closing_at: "delimiter_line d \<noteq> None \<Longrightarrow> closing_delimiter (b @ 10 # d)"
  by (induction b) auto

lemma delim_prefix:
  assumes "ms (Seq (lit (u ''---'')) (Seq (Star (Cls is_space)) (Seq (Chr 10) X))) p s c \<noteq> []"
  shows "\<exists>w r p' c'. s = u ''---'' @ w @ 10 # r \<and> list_all is_space w \<and> ms X p' r c' \<noteq> []"
proof -
  obtain m1 where m1: "m1 \<in> set (ms (lit (u ''---'')) p s c)"
    and n1: "ms (Seq (Star (Cls is_space)) (Seq (Chr 10) X)) (fst m1) (fst (snd m1)) (snd (snd m1)) \<noteq> []"
    using seq_nonempty [OF assms] by blast
  have s1: "s = u ''---'' @ fst (snd m1)"
    using m1 startswith_append [of s "u ''---''"] by (auto simp: ms_lit split: if_splits)
  obtain m2 where m2: "m2 \<in> set (ms (Star (Cls is_space)) (fst m1) (fst (snd m1)) (snd (snd m1)))"
    and n2: "ms (Seq (Chr 10) X) (fst m2) (fst (snd m2)) (snd (snd m2)) \<noteq> []"
    using seq_nonempty [OF n1] by blast
  obtain w where w: "fst (snd m1) = w @ fst (snd m2)" "list_all is_space w"
    using star_cls_shape [OF m2] by blast
  obtain m3 where m3: "m3 \<in> set (ms (Chr 10) (fst m2) (fst (snd m2)) (snd (snd m2)))"
    and n3: "ms X (fst m3) (fst (snd m3)) (snd (snd m3)) \<noteq> []"
    using seq_nonempty [OF n2] by blast
  have s3: "fst (snd m2) = 10 # fst (snd m3)"
    using m3 by (auto split: list.splits if_splits)
  have "s = u ''---'' @ w @ 10 # fst (snd m3)"
    using s1 w(1) s3 by simp
  then show ?thesis using w(2) n3 by blast
qed

lemma frontmatter_match_has_pair:
  assumes "ms re_frontmatter 0 s [] \<noteq> []"
  shows "has_delimiter_pair s"
proof -
  define R2 where "R2 = Seq (Grp 2 (Star AnyChr)) Eol"
  define D2 where "D2 = Seq (lit (u ''---'')) (Seq (Star (Cls is_space)) (Seq (Chr 10) R2))"
  define R1 where "R1 = Seq (Grp 1 (StarL AnyChr)) (Seq (Chr 10) D2)"
  define D1 where "D1 = Seq (lit (u ''---'')) (Seq (Star (Cls is_space)) (Seq (Chr 10) R1))"
  have re: "re_frontmatter = Seq Bol D1"
    by (simp add: re_frontmatter_def D1_def R1_def D2_def R2_def)
  have "ms D1 0 s [] \<noteq> []"
    using assms by (simp add: re)
  then obtain w r p' c' where a: "s = u ''---'' @ w @ 10 # r" "list_all is_space w"
    and n: "ms R1 p' r c' \<noteq> []"
    unfolding D1_def using delim_prefix by blast
  obtain m1 where m1: "m1 \<in> set (ms (Grp 1 (StarL AnyChr)) p' r c')"
    and n1: "ms (Seq (Chr 10) D2) (fst m1) (fst (snd m1)) (snd (snd m1)) \<noteq> []"
    using n seq_nonempty unfolding R1_def by blast
  obtain b where b: "r = b @ fst (snd m1)"
    using ms_suffix [OF m1] by (auto simp: suffix_def)
  obtain m2 where m2: "m2 \<in> set (ms (Chr 10) (fst m1) (fst (snd m1)) (snd (snd m1)))"
    and n2: "ms D2 (fst m2) (fst (snd m2)) (snd (snd m2)) \<noteq> []"
    using seq_nonempty [OF n1] by blast
  have s2: "fst (snd m1) = 10 # fst (snd m2)"
    using m2 by (auto split: list.splits if_splits)
  obtain w2 r4 where d: "fst (snd m2) = u ''---'' @ w2 @ 10 # r4" "list_all is_space w2"
    using n2 delim_prefix unfolding D2_def by blast
  have "delimiter_line (fst (snd m2)) \<noteq> None"
    using delimiter_line_shape [OF d(2), of r4] d(1) by auto
  then have c: "closing_delimiter r"
    using closing_at [of "fst (snd m2)" b] b s2 by simp
  obtain v where "delimiter_line s = Some (v @ r)"
    using delimiter_line_shape [OF a(2), of r] a(1) by auto
  then show ?thesis
    using closing_append [OF c, of v] by (simp add: has_delimiter_pair_def)
qed

lemma no_pair_no_match: "\<not> has_delimiter_pair s \<Longrightarrow> re_match re_frontmatter s = None"
  using frontmatter_match_has_pair [of s] by (auto simp: re_match_def split: list.splits)

lemma seq_intro:
  "m \<in> set (ms r1 p s c) \<Longrightarrow> ms r2 (fst m) (fst (snd m)) (snd (snd m)) \<noteq> [] \<Longrightarrow>
   ms (Seq r1 r2) p s c \<noteq> []"
  by auto

lemma star_cls_mem:
  "list_all f w \<Longrightarrow> (p + length w, r, c) \<in> set (ms (Star (Cls f)) p (w @ r) c)"
proof (induction w arbitrary: p)
  case Nil
  show ?case by (subst ms_Star) simp
next
  case (Cons x xs)
  have "list_all f xs" using Cons.prems by simp
  from Cons.IH [OF this, of "Suc p"]
  show ?case using Cons.prems by (subst ms_Star) simp
qed

lemma starL_cls_mem:
  "list_all f w \<Longrightarrow> (p + length w, r, c) \<in> set (ms (StarL (Cls f)) p (w @ r) c)"
proof (induction w arbitrary: p)
  case Nil
  show ?case by (subst ms_StarL) simp
next
  case (Cons x xs)
  have "list_all f xs" using Cons.prems by simp
  from Cons.IH [OF this, of "Suc p"]
  show ?case using Cons.prems by (subst ms_StarL) simp
qed

lemma grp_mem:
  "m \<in> set (ms r p s c) \<Longrightarrow>
   (fst m, fst (snd m), (n, take (fst m - p) s) # snd (snd m)) \<in> set (ms (Grp n r) p s c)"
  by simp

lemma tail_nonempty: "ms (Seq (Grp 2 (Star AnyChr)) Eol) p s c \<noteq> []"
proof -
  have "(p + length s, [], c) \<in> set (ms (Star AnyChr) p (s @ []) c)"
    unfolding AnyChr_def by (rule star_cls_mem) (simp add: list_all_iff)
  then have "(p + length s, [], c) \<in> set (ms (Star AnyChr) p s c)"
    by simp
  from grp_mem [OF this, of 2]
  show ?thesis
    by (rule seq_intro) simp
qed

lemma delim_intro:
  assumes "list_all is_space w" and "\<And>p c. ms X p r c \<noteq> []"
  shows "ms (Seq (lit (u ''---'')) (Seq (Star (Cls is_space)) (Seq (Chr 10) X))) p
           (u ''---'' @ w @ 10 # r) c \<noteq> []"
proof -
  have a: "(p + length (u ''---''), w @ 10 # r, c) \<in> set (ms (lit (u ''---'')) p (u ''---'' @ w @ 10 # r) c)"
    by (simp add: ms_lit startswith_prefix)
  have b: "(p + length (u ''---'') + length w, 10 # r, c)
             \<in> set (ms (Star (Cls is_space)) (p + length (u ''---'')) (w @ 10 # r) c)"
    using assms(1) by (rule star_cls_mem)
  have c: "ms (Seq (Chr 10) X) (p + length (u ''---'') + length w) (10 # r) c \<noteq> []"
    using assms(2) by simp
  have "ms (Seq (Star (Cls is_space)) (Seq (Chr 10) X)) (p + length (u ''---'')) (w @ 10 # r) c \<noteq> []"
    using b c seq_intro by fastforce
  then show ?thesis
    using a seq_intro by fastforce
qed

lemma delimiter_line_inv:
  assumes "delimiter_line s = Some r"
  shows "\<exists>w. s = u ''---'' @ w @ 10 # r \<and> list_all is_space w"
proof -
  have st: "startswith s (u ''---'')"
    using assms by (auto simp: delimiter_line_def split: if_splits)
  have d: "dropWhile (\<lambda>c. is_space c \<and> c \<noteq> 10) (drop 3 s) = 10 # r"
    using assms st by (auto simp: delimiter_line_def split: if_splits list.splits)
  have "drop 3 s = takeWhile (\<lambda>c. is_space c \<and> c \<noteq> 10) (drop 3 s) @ 10 # r"
    using takeWhile_dropWhile_id [of "\<lambda>c. is_space c \<and> c \<noteq> 10" "drop 3 s"] d by simp
  moreover have "s = u ''---'' @ drop 3 s"
  proof -
    have "length (u ''---'') = 3" by (simp add: u_def)
    then show ?thesis using startswith_append [OF st] by simp
  qed
  moreover have "list_all is_space (takeWhile (\<lambda>c. is_space c \<and> c \<noteq> 10) (drop 3 s))"
    by (auto simp: list_all_iff dest: set_takeWhileD)
  ultimately show ?thesis by metis
qed

lemma closing_inv:
  "closing_delimiter r \<Longrightarrow> \<exists>b d. r = b @ 10 # d \<and> delimiter_line d \<noteq> None"
proof (induction r)
  case Nil
  then show ?case by simp
next
  case (Cons x xs)
  show ?case
  proof (cases "x = 10 \<and> delimiter_line xs \<noteq> None")
    case True
    then have "x # xs = [] @ 10 # xs \<and> delimiter_line xs \<noteq> None" by simp
    then show ?thesis by blast
  next
    case False
    then have "closing_delimiter xs" using Cons.prems by auto
    then obtain b d where "xs = b @ 10 # d" "delimiter_line d \<noteq> None"
      using Cons.IH by blast
    then have "x # xs = (x # b) @ 10 # d \<and> delimiter_line d \<noteq> None" by simp
    then show ?thesis by blast
  qed
qed

lemma pair_has_match:
  assumes "has_delimiter_pair s"
  shows "ms re_frontmatter 0 s [] \<noteq> []"
proof -
  define R2 where "R2 = Seq (Grp 2 (Star AnyChr)) Eol"
  define D2 where "D2 = Seq (lit (u ''---'')) (Seq (Star (Cls is_space)) (Seq (Chr 10) R2))"
  define R1 where "R1 = Seq (Grp 1 (StarL AnyChr)) (Seq (Chr 10) D2)"
  define D1 where "D1 = Seq (lit (u ''---'')) (Seq (Star (Cls is_space)) (Seq (Chr 10) R1))"
  have re: "re_frontmatter = Seq Bol D1"
    by (simp add: re_frontmatter_def D1_def R1_def D2_def R2_def)
  obtain r where r: "delimiter_line s = Some r" "closing_delimiter r"
    using assms by (auto simp: has_delimiter_pair_def split: option.splits)
  obtain w where w: "s = u ''---'' @ w @ 10 # r" "list_all is_space w"
    using delimiter_line_inv [OF r(1)] by blast
  obtain b d where b: "r = b @ 10 # d" "delimiter_line d \<noteq> None"
    using closing_inv [OF r(2)] by blast
  obtain r4 where "delimiter_line d = Some r4" using b(2) by auto
  then obtain w2 where d: "d = u ''---'' @ w2 @ 10 # r4" "list_all is_space w2"
    using delimiter_line_inv by blast
  have n2: "ms D2 p d c \<noteq> []" for p c
    unfolding D2_def d(1) using d(2) by (rule delim_intro) (unfold R2_def, rule tail_nonempty)
  have n1: "ms R1 p r c \<noteq> []" for p c
  proof -
    have "(p + length b, 10 # d, c) \<in> set (ms (StarL AnyChr) p (b @ 10 # d) c)"
      unfolding AnyChr_def by (rule starL_cls_mem) (simp add: list_all_iff)
    then have "(p + length b, 10 # d, c) \<in> set (ms (StarL AnyChr) p r c)"
      using b(1) by simp
    from grp_mem [OF this, of 1]
    have g: "(p + length b, 10 # d, (1, take (p + length b - p) r) # c)
               \<in> set (ms (Grp 1 (StarL AnyChr)) p r c)"
      by simp
    have "ms (Seq (Chr 10) D2) (p + length b) (10 # d) ((1, take (p + length b - p) r) # c) \<noteq> []"
      using n2 by simp
    then show ?thesis
      unfolding R1_def using g seq_intro by fastforce
  qed
  have "ms D1 0 s [] \<noteq> []"
    unfolding D1_def w(1) using w(2) n1 by (rule delim_intro)
  then show ?thesis by (simp add: re)
qed

text \<open>
  The pattern of \<open>parse_frontmatter\<close> matches exactly the documents that begin with a
  delimiter pair in the sense above.
\<close>

lemma pair_iff_match: "has_delimiter_pair s \<longleftrightarrow> re_match re_frontmatter s \<noteq> None"
  using pair_has_match [of s] frontmatter_match_has_pair [of s]
  by (auto simp: re_match_def split: list.splits)

text \<open>
  C2, as the code has it: a document that does not begin with a delimiter pair has
  empty metadata, and its body is the document itself, unchanged: it is not trimmed.
\<close>

theorem frontmatter_absent:
  "\<not> has_delimiter_pair content \<Longrightarrow> parse_frontmatter content = (Map.empty, content)"
  using no_pair_no_match [of content] by (simp add: parse_frontmatter_def)

theorem frontmatter_absent_witness:
  "\<not> has_delimiter_pair (u ''---'' @ [10] @ u ''a: b'' @ [10] @ u '' rest '')
   \<and> parse_frontmatter (u ''---'' @ [10] @ u ''a: b'' @ [10] @ u '' rest '')
       = (Map.empty, u ''---'' @ [10] @ u ''a: b'' @ [10] @ u '' rest '')
   \<and> \<not> has_delimiter_pair (u ''# Title'' @ [10] @ u '' text '')
   \<and> parse_frontmatter (u ''# Title'' @ [10] @ u '' text '')
       = (Map.empty, u ''# Title'' @ [10] @ u '' text '')"
proof -
  have a: "\<not> has_delimiter_pair (u ''---'' @ [10] @ u ''a: b'' @ [10] @ u '' rest '')"
    by code_simp
  have b: "\<not> has_delimiter_pair (u ''# Title'' @ [10] @ u '' text '')"
    by code_simp
  from a b frontmatter_absent [OF a] frontmatter_absent [OF b] show ?thesis
    by blast
qed

text \<open>
  The claim as it was stated fails on a document with blanks around its text: it has
  no delimiter pair, the body returned keeps the blanks, and is not the trimmed text.
\<close>

theorem frontmatter_absent_counterexample:
  "\<not> has_delimiter_pair (u '' hi '')
   \<and> snd (parse_frontmatter (u '' hi '')) = u '' hi ''
   \<and> str_strip (u '' hi '') = u ''hi''
   \<and> snd (parse_frontmatter (u '' hi '')) \<noteq> str_strip (u '' hi '')"
  by code_simp

end
